theory Spec2Isabelle
  imports Complex_Main "HOL-Library.Word"
begin

section \<open>Darcy-flow grid of the sphere DEM code (src/darcy.cpp)\<close>

subsection \<open>Machine numbers\<close>

text \<open>
  \<^verbatim>\<open>unsigned int\<close> is a 32-bit word: \<open>+\<close> and \<open>*\<close> wrap around modulo \<open>2 ^ 32\<close>.
  A C \<^verbatim>\<open>int\<close> argument is an \<open>int\<close>; where the source mixes it with an
  \<^verbatim>\<open>unsigned int\<close> it is converted with \<open>word_of_int\<close>, which is what the usual
  arithmetic conversions of C++ do.
\<close>

type_synonym uint = "32 word"

text \<open>
  Modelled from the spec: the typedef \<^verbatim>\<open>Float\<close> is declared in typedefs.h, which is
  not among the sources; it is taken to be \<^verbatim>\<open>double\<close>, the type of the residual
  statistics. A value is NaN, one of the two infinities, the negative zero, or a finite
  number (\<open>Fin 0\<close> is the positive zero); the finite values a program holds are the
  binary64 numbers \<open>m * 2 ^ j\<close> with \<open>\<bar>m\<bar> < 2 ^ 53\<close> and \<open>-1074 \<le> j \<le> 971\<close>. Arithmetic
  follows IEEE 754 in the default rounding mode, each operation rounded on its own (no
  excess precision, no fused multiply-add): the exact result is rounded to the nearest
  binary64 number, a tie to the one with the even significand, and a result that rounds
  to \<open>2 ^ 1024\<close> or beyond becomes an infinity.
\<close>

datatype double = NaN | PInf | MInf | MZero | Fin real

text \<open>Sign bit, infinities and zeros, the real value of a finite number.\<close>

fun sign_bit :: "double \<Rightarrow> bool" where
  "sign_bit MInf = True"
| "sign_bit MZero = True"
| "sign_bit (Fin r) = (r < 0)"
| "sign_bit a = False"

fun is_inf :: "double \<Rightarrow> bool" where
  "is_inf PInf = True"
| "is_inf MInf = True"
| "is_inf a = False"

fun is_zero :: "double \<Rightarrow> bool" where
  "is_zero MZero = True"
| "is_zero (Fin r) = (r = 0)"
| "is_zero a = False"

fun rval :: "double \<Rightarrow> real" where
  "rval (Fin r) = r"
| "rval a = 0"

definition zero_of :: "bool \<Rightarrow> double" where
  "zero_of negative = (if negative then MZero else Fin 0)"

definition inf_of :: "bool \<Rightarrow> double" where
  "inf_of negative = (if negative then MInf else PInf)"

text \<open>The nearest integer, a tie going to the even one.\<close>

definition round_even :: "real \<Rightarrow> int" where
  "round_even q =
     (let f = \<lfloor>q\<rfloor>
      in if q - of_int f < 1 / 2 then f
         else if 1 / 2 < q - of_int f then f + 1
         else if even f then f else f + 1)"

text \<open>
  The binary exponent of a magnitude \<open>a\<close>: the largest \<open>k\<close> from \<open>-1021\<close> to \<open>1023\<close> with
  \<open>2 ^ k \<le> a\<close>, and \<open>-1022\<close> when there is none (the smallest normal exponent, which the
  subnormal numbers share).
\<close>

primrec expo_from :: "nat \<Rightarrow> real \<Rightarrow> int" where
  "expo_from 0 a = - 1022"
| "expo_from (Suc n) a =
     (if 2 powi (int n - 1021) \<le> a then int n - 1021 else expo_from n a)"

definition expo :: "real \<Rightarrow> int" where
  "expo a = expo_from 2045 a"

text \<open>
  Rounding of an exact result \<open>r\<close> to binary64: the spacing of the numbers around \<open>r\<close> is
  \<open>u = 2 ^ (expo \<bar>r\<bar> - 52)\<close>, and \<open>r\<close> goes to the nearest multiple of \<open>u\<close>. A nonzero
  result that rounds to zero keeps its sign.
\<close>

definition rnd :: "real \<Rightarrow> double" where
  "rnd r =
     (if r = 0 then Fin 0
      else
        let u = 2 powi (expo \<bar>r\<bar> - 52);
            v = of_int (round_even (r / u)) * u
        in if 2 ^ 1024 \<le> \<bar>v\<bar> then inf_of (r < 0)
           else if v = 0 then zero_of (r < 0)
           else Fin v)"

text \<open>
  \<^verbatim>\<open>a + b\<close>. Infinities of opposite sign give NaN; an exact sum of zero is the positive
  zero unless both operands are negative zeros.
\<close>

definition dadd :: "double \<Rightarrow> double \<Rightarrow> double" where
  "dadd a b =
     (if a = NaN \<or> b = NaN then NaN
      else if is_inf a then (if is_inf b \<and> a \<noteq> b then NaN else a)
      else if is_inf b then b
      else if rval a + rval b = 0 then zero_of (sign_bit a \<and> sign_bit b)
      else rnd (rval a + rval b))"

text \<open>
  \<^verbatim>\<open>a * b\<close>. The sign of the result is the exclusive or of the signs; zero times
  infinity is NaN.
\<close>

definition dmul :: "double \<Rightarrow> double \<Rightarrow> double" where
  "dmul a b =
     (if a = NaN \<or> b = NaN then NaN
      else if is_inf a \<or> is_inf b then
        (if is_zero a \<or> is_zero b then NaN else inf_of (sign_bit a \<noteq> sign_bit b))
      else if is_zero a \<or> is_zero b then zero_of (sign_bit a \<noteq> sign_bit b)
      else rnd (rval a * rval b))"

text \<open>
  \<^verbatim>\<open>a / b\<close>. The sign of the result is the exclusive or of the signs; a nonzero finite
  number divided by a zero is an infinity; zero by zero and infinity by infinity are NaN.
\<close>

definition ddiv :: "double \<Rightarrow> double \<Rightarrow> double" where
  "ddiv a b =
     (if a = NaN \<or> b = NaN then NaN
      else if is_inf a then (if is_inf b then NaN else inf_of (sign_bit a \<noteq> sign_bit b))
      else if is_inf b then zero_of (sign_bit a \<noteq> sign_bit b)
      else if is_zero b then (if is_zero a then NaN else inf_of (sign_bit a \<noteq> sign_bit b))
      else if is_zero a then zero_of (sign_bit a \<noteq> sign_bit b)
      else rnd (rval a / rval b))"

text \<open>\<^verbatim>\<open>a > b\<close>: false as soon as one side is NaN; the two zeros compare equal.\<close>

fun dgt :: "double \<Rightarrow> double \<Rightarrow> bool" where
  "dgt NaN b = False"
| "dgt a NaN = False"
| "dgt PInf PInf = False"
| "dgt PInf b = True"
| "dgt a PInf = False"
| "dgt MInf b = False"
| "dgt a MInf = True"
| "dgt a b = (rval b < rval a)"

text \<open>\<open>a \<le> b\<close> as the comparison \<^verbatim>\<open>a <= b\<close> reads it: false as soon as one side is NaN.\<close>

definition dle :: "double \<Rightarrow> double \<Rightarrow> bool" where
  "dle a b = (a \<noteq> NaN \<and> b \<noteq> NaN \<and> \<not> dgt a b)"

text \<open>\<^verbatim>\<open>a != b\<close>: true as soon as one side is NaN; the two zeros compare equal.\<close>

definition dne :: "double \<Rightarrow> double \<Rightarrow> bool" where
  "dne a b = (a = NaN \<or> b = NaN \<or> dgt a b \<or> dgt b a)"

text \<open>
  \<^verbatim>\<open>fmin(a, b)\<close> of the C library: a NaN argument is ignored in favour of the other.
  Which of two zeros of opposite sign is returned is left open by the C standard; the
  source only squares the result.
\<close>

definition fmin :: "double \<Rightarrow> double \<Rightarrow> double" where
  "fmin a b = (if a = NaN then b else if b = NaN then a else if dgt a b then b else a)"

text \<open>Conversion of an \<^verbatim>\<open>unsigned int\<close> to \<^verbatim>\<open>double\<close> (exact: 32 bits fit the mantissa).\<close>

definition of_uint :: "uint \<Rightarrow> double" where
  "of_uint n = Fin (real (unat n))"

text \<open>
  \<^verbatim>\<open>int(a)\<close>: truncation towards zero. The conversion is undefined in C++ when the
  truncated value does not fit an \<^verbatim>\<open>int\<close> (and for NaN and the infinities): \<open>None\<close>.
\<close>

definition int_of_double :: "double \<Rightarrow> int option" where
  "int_of_double a =
     (case a of
        Fin r \<Rightarrow>
          (let t = (if 0 \<le> r then \<lfloor>r\<rfloor> else \<lceil>r\<rceil>)
           in if - (2 ^ 31) \<le> t \<and> t < 2 ^ 31 then Some t else None)
      | MZero \<Rightarrow> Some 0
      | _ \<Rightarrow> None)"

subsection \<open>Data of the simulation object\<close>

text \<open>
  Modelled from the spec: \<^verbatim>\<open>Float3\<close> and \<^verbatim>\<open>Float4\<close> are declared in datatypes.h,
  which is not among the sources. The source reads the members \<^verbatim>\<open>x\<close>, \<^verbatim>\<open>y\<close>, \<^verbatim>\<open>z\<close>
  of a \<^verbatim>\<open>Float3\<close> (here \<open>fx\<close>, \<open>fy\<close>, \<open>fz\<close>); the particle force is a vector and a
  scalar (here \<open>gx\<close>, \<open>gy\<close>, \<open>gz\<close>, \<open>gw\<close>).
\<close>

record Float3 =
  fx :: double
  fy :: double
  fz :: double

record Float4 =
  gx :: double
  gy :: double
  gz :: double
  gw :: double

text \<open>
  An array reached through a raw pointer (\<^verbatim>\<open>Float* p = new Float[n]\<close>): \<open>len\<close> is the
  number of elements allocated, \<open>mem\<close> the memory read by \<^verbatim>\<open>p[i]\<close>. The source
  checks no bound, so \<open>mem\<close> is total: beyond \<open>len\<close> it stands for whatever the
  read finds there.
\<close>

record 'a array =
  len :: nat
  mem :: "uint \<Rightarrow> 'a"

text \<open>
  Modelled from the spec: the class \<^verbatim>\<open>DEM\<close> and the structs of its members are
  declared in sphere.h and datatypes.h, which are not among the sources. The record has
  one field per member path that darcy.cpp uses: \<^verbatim>\<open>grid.L[i]\<close>, \<^verbatim>\<open>grid.num[i]\<close>,
  \<^verbatim>\<open>time.current\<close>, \<^verbatim>\<open>time.dt\<close>, \<^verbatim>\<open>params.mu\<close>, \<^verbatim>\<open>np\<close> and the members of
  \<^verbatim>\<open>darcy\<close>. The cell counts and the particle count are taken as \<^verbatim>\<open>unsigned int\<close>,
  the return type of \<open>darcyCells\<close> and \<open>d_idx\<close>.
\<close>

record DEM =
  grid_L :: "nat \<Rightarrow> double"
  grid_num :: "nat \<Rightarrow> uint"
  time_current :: double
  time_dt :: double
  params_mu :: double
  np :: uint
  darcy_nx :: uint
  darcy_ny :: uint
  darcy_nz :: uint
  darcy_p :: "double array"
  darcy_v :: "Float3 array"
  darcy_phi :: "double array"
  darcy_dphi :: "double array"
  darcy_norm :: "double array"
  darcy_f_p :: "Float4 array"

text \<open>How a run ends when the source calls \<^verbatim>\<open>exit(1)\<close>, with what the diagnostic prints.\<close>

datatype fatal =
    DiffusionUnstable
  | AdvectionUnstable nat nat nat Float3
  | ResidualNaN nat nat nat double "int option"

subsection \<open>Cell counts and index mapping\<close>

text \<open>\<^verbatim>\<open>return (darcy.nx+2)*(darcy.ny+2)*(darcy.nz+2);\<close>\<close>

definition darcyCells :: "DEM \<Rightarrow> uint" where
  "darcyCells s = (darcy_nx s + 2) * (darcy_ny s + 2) * (darcy_nz s + 2)"

text \<open>\<^verbatim>\<open>return (x+1) + (darcy.nx+2)*(y+1) + (darcy.nx+2)*(darcy.ny+2)*(z+1);\<close>\<close>

definition d_idx :: "DEM \<Rightarrow> int \<Rightarrow> int \<Rightarrow> int \<Rightarrow> uint" where
  "d_idx s x y z =
     word_of_int (x + 1) + (darcy_nx s + 2) * word_of_int (y + 1)
       + (darcy_nx s + 2) * (darcy_ny s + 2) * word_of_int (z + 1)"

text \<open>The padded coordinate range: \<open>-1 .. n\<close> on each axis.\<close>

definition padded :: "DEM \<Rightarrow> (int \<times> int \<times> int) set" where
  "padded s =
     {-1 .. uint (darcy_nx s)} \<times> {-1 .. uint (darcy_ny s)} \<times> {-1 .. uint (darcy_nz s)}"

text \<open>The index mapping as a function of the coordinate triple.\<close>

definition d_idx3 :: "DEM \<Rightarrow> int \<times> int \<times> int \<Rightarrow> uint" where
  "d_idx3 s c = (case c of (x, y, z) \<Rightarrow> d_idx s x y z)"


text \<open>
  The product \<open>(nx+2)(ny+2)(nz+2)\<close> of natural numbers fits an \<^verbatim>\<open>unsigned int\<close>,
  and the offset of a coordinate triple computed without wrap-around.
\<close>

definition no_overflow :: "DEM \<Rightarrow> bool" where
  "no_overflow s \<longleftrightarrow>
     (unat (darcy_nx s) + 2) * (unat (darcy_ny s) + 2) * (unat (darcy_nz s) + 2) < 2 ^ 32"

definition offset_int :: "DEM \<Rightarrow> int \<times> int \<times> int \<Rightarrow> int" where
  "offset_int s c = (case c of (x, y, z) \<Rightarrow>
     (x + 1) + (uint (darcy_nx s) + 2) * (y + 1)
       + (uint (darcy_nx s) + 2) * (uint (darcy_ny s) + 2) * (z + 1))"

subsection \<open>Allocation\<close>

text \<open>
  \<^verbatim>\<open>new T[n]\<close> leaves the elements uninitialised: the contents of the fresh block
  are an argument. Allocation is taken to succeed.
\<close>

definition new_array :: "uint \<Rightarrow> (uint \<Rightarrow> 'a) \<Rightarrow> 'a array" where
  "new_array n raw = \<lparr>len = unat n, mem = raw\<rparr>"

record RawMem =
  raw_p :: "uint \<Rightarrow> double"
  raw_v :: "uint \<Rightarrow> Float3"
  raw_phi :: "uint \<Rightarrow> double"
  raw_dphi :: "uint \<Rightarrow> double"
  raw_norm :: "uint \<Rightarrow> double"
  raw_f_p :: "uint \<Rightarrow> Float4"

definition initDarcyMem :: "RawMem \<Rightarrow> DEM \<Rightarrow> DEM" where
  "initDarcyMem raw s =
     (let s1 = s\<lparr>darcy_nx := grid_num s 0, darcy_ny := grid_num s 1,
                  darcy_nz := grid_num s 2\<rparr>;
          ncells = darcyCells s1
      in s1\<lparr>darcy_p := new_array ncells (raw_p raw),
             darcy_v := new_array ncells (raw_v raw),
             darcy_phi := new_array ncells (raw_phi raw),
             darcy_dphi := new_array ncells (raw_dphi raw),
             darcy_norm := new_array ncells (raw_norm raw),
             darcy_f_p := new_array (np s1) (raw_f_p raw)\<rparr>)"

subsection \<open>Loops\<close>

text \<open>
  \<^verbatim>\<open>for (i = i0; i < n; ++i) body\<close>, where the body updates the local variables
  \<open>st\<close> or ends the run with \<^verbatim>\<open>exit(1)\<close>. No body in darcy.cpp writes to the
  bound \<open>n\<close>. The counter of the source is an \<^verbatim>\<open>int\<close>; the model counts in \<open>nat\<close>,
  which is the same for every bound below \<open>2 ^ 31\<close>.
\<close>

function for_loop :: "nat \<Rightarrow> nat \<Rightarrow> (nat \<Rightarrow> 'a \<Rightarrow> fatal + 'a) \<Rightarrow> 'a \<Rightarrow> fatal + 'a" where
  "for_loop i n body st =
     (if i < n then
        (case body i st of
           Inl e \<Rightarrow> Inl e
         | Inr st' \<Rightarrow> for_loop (Suc i) n body st')
      else Inr st)"
  by pat_completeness auto
termination
  by (relation "measure (\<lambda>(i, n, body, st). n - i)") auto

declare for_loop.simps [simp del]

subsection \<open>Stability check\<close>

definition checkDarcyStability :: "DEM \<Rightarrow> fatal + DEM" where
  "checkDarcyStability s =
     (let dx = ddiv (grid_L s 0) (of_uint (grid_num s 0));
          dy = ddiv (grid_L s 1) (of_uint (grid_num s 1));
          dz = ddiv (grid_L s 2) (of_uint (grid_num s 2));
          dmin = fmin dx (fmin dy dz)
      in if dgt (ddiv (dmul (params_mu s) (time_dt s)) (dmul dmin dmin)) (Fin (1 / 2))
         then Inl DiffusionUnstable
         else
           (case
              for_loop 0 (unat (darcy_nx s)) (\<lambda>x.
                for_loop 0 (unat (darcy_ny s)) (\<lambda>y.
                  for_loop 0 (unat (darcy_nz s)) (\<lambda>z (u :: unit).
                    let v = mem (darcy_v s) (d_idx s (int x) (int y) (int z))
                    in if dgt (dadd (dadd (ddiv (dmul (fx v) (time_dt s)) dx)
                                          (ddiv (dmul (fy v) (time_dt s)) dy))
                                    (ddiv (dmul (fz v) (time_dt s)) dz)) (Fin 1)
                       then Inl (AdvectionUnstable x y z v)
                       else Inr u))) ()
            of Inl e \<Rightarrow> Inl e
             | Inr u \<Rightarrow> Inr s))"

subsection \<open>Residual statistics\<close>

text \<open>
  \<^verbatim>\<open>double norm_res_sum, norm_res;\<close> has no initialiser: the value the accumulator
  starts from is whatever the stack holds, the argument \<open>norm_res_sum0\<close>. The function
  returns its result together with the simulation object, which it only reads.
\<close>

definition avgNormResDarcy :: "double \<Rightarrow> DEM \<Rightarrow> fatal + double \<times> DEM" where
  "avgNormResDarcy norm_res_sum0 s =
     (case
        for_loop 0 (unat (grid_num s 2)) (\<lambda>z.
          for_loop 0 (unat (grid_num s 1)) (\<lambda>y.
            for_loop 0 (unat (grid_num s 0)) (\<lambda>x norm_res_sum.
              let norm_res = mem (darcy_norm s) (d_idx s (int x) (int y) (int z))
              in if dne norm_res norm_res
                 then Inl (ResidualNaN x y z (time_current s)
                            (int_of_double (ddiv (time_current s) (time_dt s))))
                 else Inr (dadd norm_res_sum norm_res)))) norm_res_sum0
      of Inl e \<Rightarrow> Inl e
       | Inr norm_res_sum \<Rightarrow>
           Inr (ddiv norm_res_sum (of_uint (grid_num s 0 * grid_num s 1 * grid_num s 2)), s))"

definition maxNormResDarcy :: "DEM \<Rightarrow> fatal + double \<times> DEM" where
  "maxNormResDarcy s =
     (case
        for_loop 0 (unat (grid_num s 2)) (\<lambda>z.
          for_loop 0 (unat (grid_num s 1)) (\<lambda>y.
            for_loop 0 (unat (grid_num s 0)) (\<lambda>x max_norm_res.
              let norm_res = mem (darcy_norm s) (d_idx s (int x) (int y) (int z))
              in if dne norm_res norm_res
                 then Inl (ResidualNaN x y z (time_current s)
                            (int_of_double (ddiv (time_current s) (time_dt s))))
                 else Inr (if dgt norm_res max_norm_res then norm_res else max_norm_res))))
          (Fin (- 1000000000))
      of Inl e \<Rightarrow> Inl e
       | Inr max_norm_res \<Rightarrow> Inr (max_norm_res, s))"


subsection \<open>Vocabulary of the properties\<close>

text \<open>
  The same loop over an explicit list of indices; \<open>for_loop i n\<close> is shown below to run
  through \<open>[i ..< n]\<close>.
\<close>

fun for_each :: "'i list \<Rightarrow> ('i \<Rightarrow> 'a \<Rightarrow> fatal + 'a) \<Rightarrow> 'a \<Rightarrow> fatal + 'a" where
  "for_each [] body st = Inr st"
| "for_each (i # is) body st =
     (case body i st of Inl e \<Rightarrow> Inl e | Inr st' \<Rightarrow> for_each is body st')"

text \<open>
  The interior cells in the order in which the loops visit them: \<open>checkDarcyStability\<close>
  runs \<open>x\<close> outermost up to \<^verbatim>\<open>darcy.nx\<close>, the residual statistics run \<open>z\<close> outermost
  up to \<^verbatim>\<open>grid.num[2]\<close>.
\<close>

definition cells_xyz :: "DEM \<Rightarrow> (nat \<times> nat \<times> nat) list" where
  "cells_xyz s =
     [(x, y, z). x \<leftarrow> [0 ..< unat (darcy_nx s)], y \<leftarrow> [0 ..< unat (darcy_ny s)],
                 z \<leftarrow> [0 ..< unat (darcy_nz s)]]"

definition cells_zyx :: "DEM \<Rightarrow> (nat \<times> nat \<times> nat) list" where
  "cells_zyx s =
     [(x, y, z). z \<leftarrow> [0 ..< unat (grid_num s 2)], y \<leftarrow> [0 ..< unat (grid_num s 1)],
                 x \<leftarrow> [0 ..< unat (grid_num s 0)]]"

text \<open>The velocity and the residual stored for a cell.\<close>

definition velocity :: "DEM \<Rightarrow> nat \<times> nat \<times> nat \<Rightarrow> Float3" where
  "velocity s c = (case c of (x, y, z) \<Rightarrow> mem (darcy_v s) (d_idx s (int x) (int y) (int z)))"

definition residualNorm :: "DEM \<Rightarrow> nat \<times> nat \<times> nat \<Rightarrow> double" where
  "residualNorm s c =
     (case c of (x, y, z) \<Rightarrow> mem (darcy_norm s) (d_idx s (int x) (int y) (int z)))"

text \<open>
  Cell size \<open>domainLength[axis] / num[axis]\<close>, the smallest of the three, the number the
  diffusion check compares with \<open>0.5\<close> and the combined Courant number of a velocity,
  each computed as the source computes it.
\<close>

definition cellSize :: "DEM \<Rightarrow> nat \<Rightarrow> double" where
  "cellSize s i = ddiv (grid_L s i) (of_uint (grid_num s i))"

definition dmin :: "DEM \<Rightarrow> double" where
  "dmin s = fmin (cellSize s 0) (fmin (cellSize s 1) (cellSize s 2))"

definition diffusion_number :: "DEM \<Rightarrow> double" where
  "diffusion_number s = ddiv (dmul (params_mu s) (time_dt s)) (dmul (dmin s) (dmin s))"

definition courant :: "DEM \<Rightarrow> Float3 \<Rightarrow> double" where
  "courant s v =
     dadd (dadd (ddiv (dmul (fx v) (time_dt s)) (cellSize s 0))
                (ddiv (dmul (fy v) (time_dt s)) (cellSize s 1)))
          (ddiv (dmul (fz v) (time_dt s)) (cellSize s 2))"

definition offending :: "DEM \<Rightarrow> nat \<times> nat \<times> nat \<Rightarrow> bool" where
  "offending s c = dgt (courant s (velocity s c)) (Fin 1)"

text \<open>The two diagnostics that name a cell.\<close>

definition advection_fatal :: "DEM \<Rightarrow> nat \<times> nat \<times> nat \<Rightarrow> fatal" where
  "advection_fatal s c = (case c of (x, y, z) \<Rightarrow> AdvectionUnstable x y z (velocity s c))"

definition residual_fatal :: "DEM \<Rightarrow> nat \<times> nat \<times> nat \<Rightarrow> fatal" where
  "residual_fatal s c = (case c of (x, y, z) \<Rightarrow>
     ResidualNaN x y z (time_current s) (int_of_double (ddiv (time_current s) (time_dt s))))"

text \<open>One step of the running maximum: \<^verbatim>\<open>if (norm_res > max_norm_res) max_norm_res = norm_res;\<close>\<close>

definition max_step :: "double \<Rightarrow> double \<Rightarrow> double" where
  "max_step max_norm_res norm_res =
     (if dgt norm_res max_norm_res then norm_res else max_norm_res)"

subsection \<open>Example states\<close>

text \<open>
  A grid of \<open>2 \<times> 1 \<times> 1\<close> cells of size one, viscosity \<open>0.125\<close>, time step \<open>2\<close>, time
  \<open>6\<close>, uniform velocity \<open>(0.375, 0.375, 0.375)\<close>, all scalar fields zero. The interior
  cells \<open>(0,0,0)\<close> and \<open>(1,0,0)\<close> are stored at the offsets 17 and 18. Every number of the
  example states is a binary64 number.
\<close>

definition example_dem :: DEM where
  "example_dem =
     \<lparr>grid_L = (\<lambda>i. if i = 0 then Fin 2 else Fin 1),
      grid_num = (\<lambda>i. if i = 0 then 2 else 1),
      time_current = Fin 6, time_dt = Fin 2, params_mu = Fin (1 / 8), np = 3,
      darcy_nx = 2, darcy_ny = 1, darcy_nz = 1,
      darcy_p = \<lparr>len = 36, mem = (\<lambda>i. Fin 0)\<rparr>,
      darcy_v = \<lparr>len = 36,
                 mem = (\<lambda>i. \<lparr>fx = Fin (3 / 8), fy = Fin (3 / 8), fz = Fin (3 / 8)\<rparr>)\<rparr>,
      darcy_phi = \<lparr>len = 36, mem = (\<lambda>i. Fin 0)\<rparr>,
      darcy_dphi = \<lparr>len = 36, mem = (\<lambda>i. Fin 0)\<rparr>,
      darcy_norm = \<lparr>len = 36, mem = (\<lambda>i. Fin 0)\<rparr>,
      darcy_f_p = \<lparr>len = 3, mem = (\<lambda>i. \<lparr>gx = Fin 0, gy = Fin 0, gz = Fin 0, gw = Fin 0\<rparr>)\<rparr>\<rparr>"

text \<open>Cell counts whose padded product \<open>65536 * 65536 * 4\<close> does not fit 32 bits.\<close>

definition wide_dem :: DEM where
  "wide_dem = example_dem\<lparr>darcy_nx := 65534, darcy_ny := 65534, darcy_nz := 2\<rparr>"

text \<open>The residual field with NaN in cell \<open>(1,0,0)\<close>.\<close>

definition nan_dem :: DEM where
  "nan_dem =
     example_dem\<lparr>darcy_norm := \<lparr>len = 36, mem = (\<lambda>i. if i = 18 then NaN else Fin 0)\<rparr>\<rparr>"

text \<open>The residual field with \<open>5\<close> in cell \<open>(1,0,0)\<close> and zero elsewhere.\<close>

definition peak_dem :: DEM where
  "peak_dem =
     example_dem\<lparr>darcy_norm := \<lparr>len = 36, mem = (\<lambda>i. if i = 18 then Fin 5 else Fin 0)\<rparr>\<rparr>"

text \<open>Viscosity \<open>0.25\<close> and uniform velocity \<open>(0.5, 0, 0)\<close>: both stability numbers sit on their bounds.\<close>

definition bound_dem :: DEM where
  "bound_dem =
     example_dem\<lparr>params_mu := Fin (1 / 4),
       darcy_v := \<lparr>len = 36, mem = (\<lambda>i. \<lparr>fx = Fin (1 / 2), fy = Fin 0, fz = Fin 0\<rparr>)\<rparr>\<rparr>"

text \<open>Viscosity \<open>1\<close>: the diffusion number is \<open>2\<close>.\<close>

definition viscous_dem :: DEM where
  "viscous_dem = example_dem\<lparr>params_mu := Fin 1\<rparr>"

text \<open>Uniform velocity \<open>(-1000000, 0, 0)\<close>.\<close>

definition backflow_dem :: DEM where
  "backflow_dem =
     example_dem\<lparr>darcy_v :=
       \<lparr>len = 36, mem = (\<lambda>i. \<lparr>fx = Fin (- 1000000), fy = Fin 0, fz = Fin 0\<rparr>)\<rparr>\<rparr>"

text \<open>Fresh memory holding zeros, for the allocation.\<close>

definition zero_mem :: RawMem where
  "zero_mem =
     \<lparr>raw_p = (\<lambda>i. Fin 0), raw_v = (\<lambda>i. \<lparr>fx = Fin 0, fy = Fin 0, fz = Fin 0\<rparr>),
      raw_phi = (\<lambda>i. Fin 0), raw_dphi = (\<lambda>i. Fin 0), raw_norm = (\<lambda>i. Fin 0),
      raw_f_p = (\<lambda>i. \<lparr>gx = Fin 0, gy = Fin 0, gz = Fin 0, gw = Fin 0\<rparr>)\<rparr>"

text \<open>
  The grid dimensions \<open>65534 \<times> 65534 \<times> 2\<close> in the geometry, before allocation: the padded
  cell count is \<open>2 ^ 34\<close>.
\<close>

definition wide_grid_dem :: DEM where
  "wide_grid_dem = example_dem\<lparr>grid_num := (\<lambda>i. if i = 2 then 2 else 65534)\<rparr>"

text \<open>A negative time step, \<open>-2\<close>, with the uniform velocity \<open>(-0.625, 0, 0)\<close>.\<close>

definition negative_dt_dem :: DEM where
  "negative_dt_dem =
     example_dem\<lparr>time_dt := Fin (- 2),
       darcy_v := \<lparr>len = 36, mem = (\<lambda>i. \<lparr>fx = Fin (- (5 / 8)), fy = Fin 0, fz = Fin 0\<rparr>)\<rparr>\<rparr>"

text \<open>
  A negative domain length along \<open>x\<close>, \<open>-2\<close>, so that \<open>dx = -1\<close>, with the uniform velocity
  \<open>(-0.625, 0, 0)\<close>.
\<close>

definition negative_dx_dem :: DEM where
  "negative_dx_dem =
     example_dem\<lparr>grid_L := (\<lambda>i. if i = 0 then Fin (- 2) else Fin 1),
       darcy_v := \<lparr>len = 36, mem = (\<lambda>i. \<lparr>fx = Fin (- (5 / 8)), fy = Fin 0, fz = Fin 0\<rparr>)\<rparr>\<rparr>"

text \<open>
  States on which rounding decides the outcome. Viscosity \<open>1 + 2^-52\<close> and time step
  \<open>0.5 - 2^-54\<close> with zero velocity: the exact product exceeds \<open>0.5\<close> and rounds to \<open>0.5\<close>.
\<close>

definition round_down_dem :: DEM where
  "round_down_dem =
     example_dem\<lparr>params_mu := Fin (1 + 1 / 2 ^ 52), time_dt := Fin (1 / 2 - 1 / 2 ^ 54),
       darcy_v := \<lparr>len = 36, mem = (\<lambda>i. \<lparr>fx = Fin 0, fy = Fin 0, fz = Fin 0\<rparr>)\<rparr>\<rparr>"

text \<open>
  Viscosity \<open>0\<close>, time step \<open>1\<close> and the uniform velocity \<open>(1, 2^-53, 2^-53)\<close>: the exact sum
  \<open>1 + 2^-52\<close> exceeds \<open>1\<close>, and each addition rounds back to \<open>1\<close>.
\<close>

definition tie_dem :: DEM where
  "tie_dem =
     example_dem\<lparr>params_mu := Fin 0, time_dt := Fin 1,
       darcy_v := \<lparr>len = 36,
         mem = (\<lambda>i. \<lparr>fx = Fin 1, fy = Fin (1 / 2 ^ 53), fz = Fin (1 / 2 ^ 53)\<rparr>)\<rparr>\<rparr>"

text \<open>
  Cells of size \<open>28\<close>, viscosity \<open>0\<close>, time step \<open>1\<close> and the uniform velocity \<open>(9, 18, 1)\<close>:
  the exact sum \<open>9/28 + 18/28 + 1/28\<close> is \<open>1\<close>, the rounded quotients add up to \<open>1 + 2^-52\<close>.
\<close>

definition round_up_dem :: DEM where
  "round_up_dem =
     example_dem\<lparr>grid_L := (\<lambda>i. if i = 0 then Fin 56 else Fin 28),
       params_mu := Fin 0, time_dt := Fin 1,
       darcy_v := \<lparr>len = 36, mem = (\<lambda>i. \<lparr>fx = Fin 9, fy = Fin 18, fz = Fin 1\<rparr>)\<rparr>\<rparr>"

text \<open>
  NaN in cell \<open>(1,0,0)\<close> at time \<open>1\<close> with the time step \<open>3602879701896397 / 2^55\<close>, the
  binary64 number nearest to \<open>0.1\<close>.
\<close>

definition tenth_dem :: DEM where
  "tenth_dem = nan_dem\<lparr>time_current := Fin 1, time_dt := Fin (3602879701896397 / 2 ^ 55)\<rparr>"

section \<open>Properties\<close>

subsection \<open>Mixed-radix offsets\<close>

lemma radix_bound:
  fixes a b c W H D :: int
  assumes "0 \<le> a" "a < W" "0 \<le> b" "b < H" "0 \<le> c" "c < D"
  shows "0 \<le> a + W * b + W * H * c" and "a + W * b + W * H * c < W * H * D"
proof -
  have W: "0 < W" and H: "0 < H" using assms by linarith+
  show "0 \<le> a + W * b + W * H * c" using assms W H by simp
  have "a + W * b \<le> (W - 1) + W * (H - 1)"
    using assms W by (intro add_mono mult_left_mono) auto
  then have 1: "a + W * b < W * H" by (simp add: algebra_simps)
  have "W * H * c \<le> W * H * (D - 1)"
    using assms W H by (intro mult_left_mono) auto
  with 1 show "a + W * b + W * H * c < W * H * D" by (simp add: algebra_simps)
qed

lemma radix_inj:
  fixes a b c a' b' c' W H :: int
  assumes "0 \<le> a" "a < W" "0 \<le> b" "b < H" "0 \<le> a'" "a' < W" "0 \<le> b'" "b' < H"
    and eq: "a + W * b + W * H * c = a' + W * b' + W * H * c'"
  shows "a = a' \<and> b = b' \<and> c = c'"
proof -
  have W: "0 < W" and H: "0 < H" using assms by linarith+
  have e: "a + W * (b + H * c) = a' + W * (b' + H * c')"
    using eq by (simp add: algebra_simps)
  have "(a + W * (b + H * c)) mod W = a" using assms by simp
  moreover have "(a' + W * (b' + H * c')) mod W = a'" using assms by simp
  ultimately have a: "a = a'" using e by simp
  with e W have e2: "b + H * c = b' + H * c'" by simp
  have "(b + H * c) mod H = b" using assms by simp
  moreover have "(b' + H * c') mod H = b'" using assms by simp
  ultimately have b: "b = b'" using e2 by simp
  with e2 H have "c = c'" by simp
  with a b show ?thesis by simp
qed

lemma radix_surj:
  fixes k W H D :: int
  assumes "0 < W" "0 < H" "0 \<le> k" "k < W * H * D"
  shows "\<exists>a b c. 0 \<le> a \<and> a < W \<and> 0 \<le> b \<and> b < H \<and> 0 \<le> c \<and> c < D \<and> k = a + W * b + W * H * c"
proof -
  let ?a = "k mod W" and ?b = "(k div W) mod H" and ?c = "k div (W * H)"
  have "k = ?a + W * (k div W)" by simp
  also have "k div W = ?b + H * ((k div W) div H)" by simp
  also have "(k div W) div H = ?c" using assms by (simp add: zdiv_zmult2_eq)
  finally have k: "k = ?a + W * ?b + W * H * ?c" by (simp add: algebra_simps)
  have "0 < W * H" using assms by simp
  have "?c < D"
  proof (rule ccontr)
    assume "\<not> ?c < D"
    then have "W * H * D \<le> W * H * ?c" using \<open>0 < W * H\<close> by (intro mult_left_mono) auto
    also have "\<dots> = k - k mod (W * H)" by (simp add: minus_mod_eq_mult_div)
    also have "\<dots> \<le> k" using \<open>0 < W * H\<close> by simp
    finally show False using assms(4) by simp
  qed
  moreover have "0 \<le> ?c" using assms by (simp add: pos_imp_zdiv_nonneg_iff)
  ultimately show ?thesis using assms k
    by (intro exI[of _ ?a] exI[of _ ?b] exI[of _ ?c]) auto
qed

lemma d_idx_word_of_int:
  "d_idx s x y z =
     word_of_int ((x + 1) + (uint (darcy_nx s) + 2) * (y + 1)
        + (uint (darcy_nx s) + 2) * (uint (darcy_ny s) + 2) * (z + 1))"
  by (simp add: d_idx_def)

lemma darcyCells_word_of_int:
  "darcyCells s =
     word_of_int ((uint (darcy_nx s) + 2) * (uint (darcy_ny s) + 2) * (uint (darcy_nz s) + 2))"
  by (simp add: darcyCells_def)

lemma no_overflow_int:
  "no_overflow s \<longleftrightarrow>
     (uint (darcy_nx s) + 2) * (uint (darcy_ny s) + 2) * (uint (darcy_nz s) + 2) < 2 ^ 32"
proof -
  have "int ((unat (darcy_nx s) + 2) * (unat (darcy_ny s) + 2) * (unat (darcy_nz s) + 2))
      = (uint (darcy_nx s) + 2) * (uint (darcy_ny s) + 2) * (uint (darcy_nz s) + 2)"
    by (simp only: of_nat_mult of_nat_add of_nat_numeral flip: uint_nat)
  then show ?thesis
    unfolding no_overflow_def
    by (subst of_nat_less_numeral_power_cancel_iff [where ?'a = int, symmetric]) (simp only:)
qed

lemma offset_int_range:
  assumes "c \<in> padded s"
  shows "0 \<le> offset_int s c"
    and "offset_int s c
          < (uint (darcy_nx s) + 2) * (uint (darcy_ny s) + 2) * (uint (darcy_nz s) + 2)"
proof -
  obtain x y z where c: "c = (x, y, z)" by (cases c)
  with assms have b: "0 \<le> x + 1" "x + 1 < uint (darcy_nx s) + 2" "0 \<le> y + 1"
    "y + 1 < uint (darcy_ny s) + 2" "0 \<le> z + 1" "z + 1 < uint (darcy_nz s) + 2"
    by (auto simp: padded_def)
  from radix_bound [OF b] c
  show "0 \<le> offset_int s c"
    and "offset_int s c
          < (uint (darcy_nx s) + 2) * (uint (darcy_ny s) + 2) * (uint (darcy_nz s) + 2)"
    by (simp_all add: offset_int_def)
qed

lemma d_idx3_offset: "d_idx3 s c = word_of_int (offset_int s c)"
  by (cases c) (simp add: d_idx3_def offset_int_def d_idx_def)

lemma uint_d_idx3:
  assumes "no_overflow s" "c \<in> padded s"
  shows "uint (d_idx3 s c) = offset_int s c"
proof -
  have "offset_int s c < 2 ^ 32" "0 \<le> offset_int s c"
    using offset_int_range [OF assms(2)] assms(1) by (simp_all add: no_overflow_int)
  then show ?thesis
    by (simp add: d_idx3_offset uint_word_of_int)
qed

lemma uint_darcyCells:
  assumes "no_overflow s"
  shows "uint (darcyCells s)
     = (uint (darcy_nx s) + 2) * (uint (darcy_ny s) + 2) * (uint (darcy_nz s) + 2)"
proof -
  define n where "n = (uint (darcy_nx s) + 2) * (uint (darcy_ny s) + 2) * (uint (darcy_nz s) + 2)"
  have "0 \<le> n" by (simp add: n_def)
  moreover have "n < 2 ^ 32" using assms by (simp add: no_overflow_int n_def)
  moreover have "darcyCells s = word_of_int n"
    unfolding n_def by (rule darcyCells_word_of_int)
  ultimately have "uint (darcyCells s) = n"
    by (simp add: uint_word_of_int)
  then show ?thesis by (simp only: n_def)
qed

lemma offset_int_inj:
  assumes "c \<in> padded s" "c' \<in> padded s" "offset_int s c = offset_int s c'"
  shows "c = c'"
proof -
  obtain x y z where c: "c = (x, y, z)" by (cases c)
  obtain x' y' z' where c': "c' = (x', y', z')" by (cases c')
  from assms(1) c have b: "0 \<le> x + 1" "x + 1 < uint (darcy_nx s) + 2" "0 \<le> y + 1"
    "y + 1 < uint (darcy_ny s) + 2"
    by (auto simp: padded_def)
  from assms(2) c' have b': "0 \<le> x' + 1" "x' + 1 < uint (darcy_nx s) + 2" "0 \<le> y' + 1"
    "y' + 1 < uint (darcy_ny s) + 2"
    by (auto simp: padded_def)
  from assms(3) c c' have "(x + 1) + (uint (darcy_nx s) + 2) * (y + 1)
       + (uint (darcy_nx s) + 2) * (uint (darcy_ny s) + 2) * (z + 1)
     = (x' + 1) + (uint (darcy_nx s) + 2) * (y' + 1)
       + (uint (darcy_nx s) + 2) * (uint (darcy_ny s) + 2) * (z' + 1)"
    by (simp add: offset_int_def)
  from radix_inj [OF b b' this] c c' show ?thesis by simp
qed

lemma offset_int_surj:
  assumes "0 \<le> k"
    "k < (uint (darcy_nx s) + 2) * (uint (darcy_ny s) + 2) * (uint (darcy_nz s) + 2)"
  shows "\<exists>c \<in> padded s. offset_int s c = k"
proof -
  have "0 \<le> uint (darcy_nx s)" "0 \<le> uint (darcy_ny s)" by simp_all
  then have "0 < uint (darcy_nx s) + 2" "0 < uint (darcy_ny s) + 2"
    by linarith+
  from radix_surj [OF this assms] obtain a b c where
    r: "0 \<le> a" "a < uint (darcy_nx s) + 2" "0 \<le> b" "b < uint (darcy_ny s) + 2"
       "0 \<le> c" "c < uint (darcy_nz s) + 2"
       "k = a + (uint (darcy_nx s) + 2) * b + (uint (darcy_nx s) + 2) * (uint (darcy_ny s) + 2) * c"
    by blast
  then have "(a - 1, b - 1, c - 1) \<in> padded s" by (auto simp: padded_def)
  moreover have "offset_int s (a - 1, b - 1, c - 1) = k" using r(7) by (simp add: offset_int_def)
  ultimately show ?thesis by blast
qed

lemma unat_darcyCells:
  assumes "no_overflow s"
  shows "unat (darcyCells s)
           = (unat (darcy_nx s) + 2) * (unat (darcy_ny s) + 2) * (unat (darcy_nz s) + 2)"
proof -
  have "int (unat (darcyCells s))
      = int ((unat (darcy_nx s) + 2) * (unat (darcy_ny s) + 2) * (unat (darcy_nz s) + 2))"
    using uint_darcyCells [OF assms]
    by (simp only: of_nat_mult of_nat_add of_nat_numeral flip: uint_nat)
  then show ?thesis by (simp only: of_nat_eq_iff)
qed

subsection \<open>The loops as scans of the cell list\<close>

lemma for_loop_for_each: "for_loop i n body st = for_each [i ..< n] body st"
proof (induction i n body st rule: for_loop.induct)
  case (1 i n body st)
  show ?case
  proof (cases "i < n")
    case True
    then have "[i ..< n] = i # [Suc i ..< n]" by (simp add: upt_conv_Cons)
    with True 1 show ?thesis
      by (subst for_loop.simps) (simp split: sum.splits)
  next
    case False
    then show ?thesis by (subst for_loop.simps) simp
  qed
qed

lemma for_each_append:
  "for_each (xs @ ys) body st =
     (case for_each xs body st of Inl e \<Rightarrow> Inl e | Inr st' \<Rightarrow> for_each ys body st')"
  by (induction xs arbitrary: st) (simp_all split: sum.splits)

lemma for_each_map: "for_each (map g xs) body = for_each xs (\<lambda>i. body (g i))"
proof
  fix st show "for_each (map g xs) body st = for_each xs (\<lambda>i. body (g i)) st"
    by (induction xs arbitrary: st) (simp_all split: sum.splits)
qed

lemma for_each_concat_map:
  "for_each (concat (map f xs)) body = for_each xs (\<lambda>i. for_each (f i) body)"
proof
  fix st show "for_each (concat (map f xs)) body st = for_each xs (\<lambda>i. for_each (f i) body) st"
    by (induction xs arbitrary: st) (simp_all add: for_each_append split: sum.splits)
qed

lemma for_each_xyz:
  "for_each xs (\<lambda>x. for_each ys (\<lambda>y. for_each zs (\<lambda>z. body x y z)))
     = for_each [(x, y, z). x \<leftarrow> xs, y \<leftarrow> ys, z \<leftarrow> zs] (\<lambda>(x, y, z). body x y z)"
  by (simp add: for_each_concat_map for_each_map)

lemma for_each_zyx:
  "for_each zs (\<lambda>z. for_each ys (\<lambda>y. for_each xs (\<lambda>x. body x y z)))
     = for_each [(x, y, z). z \<leftarrow> zs, y \<leftarrow> ys, x \<leftarrow> xs] (\<lambda>(x, y, z). body x y z)"
  by (simp add: for_each_concat_map for_each_map)

lemma for_each_check:
  assumes "\<And>c st. c \<in> set cs \<Longrightarrow> body c st = (if bad c then Inl (err c) else Inr (upd c st))"
  shows "for_each cs body st =
     (case find bad cs of
        Some c \<Rightarrow> Inl (err c)
      | None \<Rightarrow> Inr (foldl (\<lambda>st c. upd c st) st cs))"
  using assms by (induction cs arbitrary: st) (simp_all split: option.splits)

lemma set_cells_xyz:
  "set (cells_xyz s) = {(x, y, z). x < unat (darcy_nx s) \<and> y < unat (darcy_ny s) \<and> z < unat (darcy_nz s)}"
  by (auto simp: cells_xyz_def image_iff)

lemma set_cells_zyx:
  "set (cells_zyx s) = {(x, y, z). x < unat (grid_num s 0) \<and> y < unat (grid_num s 1) \<and> z < unat (grid_num s 2)}"
  by (auto simp: cells_zyx_def image_iff)

lemma dgt_irrefl [simp]: "\<not> dgt a a"
  by (cases a) simp_all

lemma dne_self [simp]: "dne a a \<longleftrightarrow> a = NaN"
  by (simp add: dne_def)

lemma checkDarcyStability_find:
  "checkDarcyStability s =
     (if dgt (diffusion_number s) (Fin (1 / 2)) then Inl DiffusionUnstable
      else case find (offending s) (cells_xyz s) of
             Some c \<Rightarrow> Inl (advection_fatal s c)
           | None \<Rightarrow> Inr s)"
proof -
  have "for_each (cells_xyz s) (\<lambda>(x, y, z) (u :: unit).
            let v = mem (darcy_v s) (d_idx s (int x) (int y) (int z))
            in if dgt (dadd (dadd (ddiv (dmul (fx v) (time_dt s)) (cellSize s 0))
                                  (ddiv (dmul (fy v) (time_dt s)) (cellSize s 1)))
                            (ddiv (dmul (fz v) (time_dt s)) (cellSize s 2))) (Fin 1)
               then Inl (AdvectionUnstable x y z v)
               else Inr u) ()
        = (case find (offending s) (cells_xyz s) of
             Some c \<Rightarrow> Inl (advection_fatal s c)
           | None \<Rightarrow> Inr (foldl (\<lambda>st c. st) () (cells_xyz s)))"
    by (rule for_each_check)
       (auto simp: offending_def courant_def velocity_def advection_fatal_def Let_def)
  then show ?thesis
    unfolding checkDarcyStability_def for_loop_for_each for_each_xyz
      cells_xyz_def [symmetric] cellSize_def [symmetric]
    by (simp add: Let_def diffusion_number_def dmin_def cellSize_def split: option.splits)
qed

lemma avgNormResDarcy_find:
  "avgNormResDarcy a s =
     (case find (\<lambda>c. residualNorm s c = NaN) (cells_zyx s) of
        Some c \<Rightarrow> Inl (residual_fatal s c)
      | None \<Rightarrow>
          Inr (ddiv (foldl dadd a (map (residualNorm s) (cells_zyx s)))
                    (of_uint (grid_num s 0 * grid_num s 1 * grid_num s 2)), s))"
proof -
  have "for_each (cells_zyx s) (\<lambda>(x, y, z) norm_res_sum.
              let norm_res = mem (darcy_norm s) (d_idx s (int x) (int y) (int z))
              in if dne norm_res norm_res
                 then Inl (ResidualNaN x y z (time_current s)
                            (int_of_double (ddiv (time_current s) (time_dt s))))
                 else Inr (dadd norm_res_sum norm_res)) a
        = (case find (\<lambda>c. residualNorm s c = NaN) (cells_zyx s) of
             Some c \<Rightarrow> Inl (residual_fatal s c)
           | None \<Rightarrow> Inr (foldl (\<lambda>st c. dadd st (residualNorm s c)) a (cells_zyx s)))"
    by (rule for_each_check) (auto simp: residualNorm_def residual_fatal_def Let_def)
  then show ?thesis
    unfolding avgNormResDarcy_def for_loop_for_each for_each_zyx cells_zyx_def [symmetric]
    by (simp add: foldl_map split: option.splits)
qed

lemma maxNormResDarcy_find:
  "maxNormResDarcy s =
     (case find (\<lambda>c. residualNorm s c = NaN) (cells_zyx s) of
        Some c \<Rightarrow> Inl (residual_fatal s c)
      | None \<Rightarrow>
          Inr (foldl max_step (Fin (- 1000000000)) (map (residualNorm s) (cells_zyx s)), s))"
proof -
  have "for_each (cells_zyx s) (\<lambda>(x, y, z) max_norm_res.
              let norm_res = mem (darcy_norm s) (d_idx s (int x) (int y) (int z))
              in if dne norm_res norm_res
                 then Inl (ResidualNaN x y z (time_current s)
                            (int_of_double (ddiv (time_current s) (time_dt s))))
                 else Inr (if dgt norm_res max_norm_res then norm_res else max_norm_res))
            (Fin (- 1000000000))
        = (case find (\<lambda>c. residualNorm s c = NaN) (cells_zyx s) of
             Some c \<Rightarrow> Inl (residual_fatal s c)
           | None \<Rightarrow> Inr (foldl (\<lambda>st c. max_step st (residualNorm s c)) (Fin (- 1000000000)) (cells_zyx s)))"
    by (rule for_each_check) (auto simp: residualNorm_def residual_fatal_def Let_def max_step_def)
  then show ?thesis
    unfolding maxNormResDarcy_def for_loop_for_each for_each_zyx cells_zyx_def [symmetric]
    by (simp add: foldl_map split: option.splits)
qed

subsection \<open>Rounding\<close>

lemma expo_from_range: "- 1022 \<le> expo_from n a \<and> expo_from n a \<le> int n - 1022"
  by (induction n) auto

lemma expo_from_lower: "expo_from n a = - 1022 \<or> 2 powi (expo_from n a) \<le> a"
  by (induction n) auto

lemma expo_from_eq:
  assumes "- 1022 \<le> k" "k \<le> int n - 1022" "k = - 1022 \<or> 2 powi k \<le> a" "a < 2 powi (k + 1)"
  shows "expo_from n a = k"
  using assms
proof (induction n)
  case 0
  then show ?case by simp
next
  case (Suc n)
  show ?case
  proof (cases "2 powi (int n - 1021) \<le> a")
    case True
    with Suc.prems(4) have "(2 :: real) powi (int n - 1021) < 2 powi (k + 1)" by simp
    then have "int n - 1021 < k + 1"
      using power_int_increasing [of "k + 1" "int n - 1021" "2 :: real"] by (cases "int n - 1021 < k + 1") auto
    with Suc.prems(2) True show ?thesis by simp
  next
    case False
    have "k \<noteq> int n - 1021"
    proof
      assume e: "k = int n - 1021"
      then have "k \<noteq> - 1022" by simp
      with Suc.prems(3) e False show False by simp
    qed
    with Suc.prems(2) have "k \<le> int n - 1022" by simp
    with Suc.IH Suc.prems False show ?thesis by simp
  qed
qed

lemma expo_eq:
  assumes "- 1022 \<le> k" "k \<le> 1023" "k = - 1022 \<or> 2 powi k \<le> a" "a < 2 powi (k + 1)"
  shows "expo a = k"
  unfolding expo_def using assms by (intro expo_from_eq) simp_all

lemma expo_range: "- 1022 \<le> expo a" "expo a \<le> 1023"
  using expo_from_range [of 2045 a] by (simp_all add: expo_def)

lemma expo_lower: "expo a = - 1022 \<or> 2 powi (expo a) \<le> a"
  unfolding expo_def by (rule expo_from_lower)

lemma round_even_of_int [simp]: "round_even (of_int n) = n"
  by (simp add: round_even_def)

lemma round_even_nonpos: "q \<le> 0 \<Longrightarrow> round_even q \<le> 0"
proof -
  assume q: "q \<le> 0"
  show ?thesis
  proof (cases "q = of_int \<lfloor>q\<rfloor>")
    case True
    then have "round_even q = \<lfloor>q\<rfloor>" by (simp add: round_even_def)
    with q show ?thesis by simp
  next
    case False
    then have "of_int \<lfloor>q\<rfloor> \<noteq> q" by (rule not_sym)
    then have "of_int \<lfloor>q\<rfloor> < q"
      using of_int_floor_le [of q] by (rule order.not_eq_order_implies_strict)
    with q have "\<lfloor>q\<rfloor> < 0" by linarith
    then have "\<lfloor>q\<rfloor> + 1 \<le> 0" by linarith
    then show ?thesis by (auto simp: round_even_def Let_def)
  qed
qed

lemma rnd_0 [simp]: "rnd 0 = Fin 0"
  by (simp add: rnd_def)

lemma rnd_not_NaN [simp]: "rnd r \<noteq> NaN"
  by (simp add: rnd_def Let_def zero_of_def inf_of_def)

lemma rnd_nonpos:
  assumes "r \<le> 0"
  shows "rnd r = MInf \<or> rnd r = MZero \<or> (\<exists>v \<le> 0. rnd r = Fin v)"
proof (cases "r = 0")
  case True
  then show ?thesis by simp
next
  case False
  define u :: real where "u = 2 powi (expo \<bar>r\<bar> - 52)"
  have u: "0 < u" by (simp add: u_def)
  with assms have "r / u \<le> 0" by (simp add: divide_nonpos_pos)
  then have "round_even (r / u) \<le> 0" by (rule round_even_nonpos)
  then have "of_int (round_even (r / u)) * u \<le> 0"
    using u by (simp add: mult_nonpos_nonneg)
  with False assms show ?thesis
    by (auto simp: rnd_def Let_def u_def zero_of_def inf_of_def)
qed

lemma rnd_eval:
  assumes "r \<noteq> 0" "- 1022 \<le> k" "k \<le> 1023" "k = - 1022 \<or> 2 powi k \<le> \<bar>r\<bar>"
    "\<bar>r\<bar> < 2 powi (k + 1)"
  shows "rnd r =
     (let u = 2 powi (k - 52); v = of_int (round_even (r / u)) * u
      in if 2 ^ 1024 \<le> \<bar>v\<bar> then inf_of (r < 0)
         else if v = 0 then zero_of (r < 0)
         else Fin v)"
  using assms(1) expo_eq [OF assms(2-5)] by (simp add: rnd_def)

lemma rnd_exact:
  assumes "r = of_int m * 2 powi j" "\<bar>m\<bar> < 2 ^ 53" "- 1074 \<le> j" "\<bar>r\<bar> < 2 ^ 1024"
  shows "rnd r = Fin r"
proof (cases "r = 0")
  case True
  then show ?thesis by simp
next
  case False
  define e where "e = expo \<bar>r\<bar>"
  have ej: "e - 52 \<le> j"
  proof (cases "e = - 1022")
    case True
    with assms(3) show ?thesis by simp
  next
    case False
    with expo_lower [of "\<bar>r\<bar>"] have "2 powi e \<le> \<bar>r\<bar>" by (simp add: e_def)
    also have "\<bar>r\<bar> = \<bar>of_int m\<bar> * 2 powi j" by (simp add: assms(1) abs_mult)
    also have "\<dots> < 2 ^ 53 * 2 powi j"
    proof -
      have "\<bar>of_int m :: real\<bar> < 2 ^ 53" using assms(2) by (metis of_int_abs of_int_less_numeral_power_cancel_iff)
      then show ?thesis by (intro mult_strict_right_mono) simp_all
    qed
    also have "\<dots> = 2 powi (53 + j)" by (simp add: power_int_add)
    finally have "(2 :: real) powi e < 2 powi (53 + j)" .
    then have "e < 53 + j"
      using power_int_increasing [of "53 + j" e "2 :: real"] by (cases "e < 53 + j") auto
    then show ?thesis by simp
  qed
  define d where "d = nat (j - (e - 52))"
  have "2 powi j = (2 :: real) powi (e - 52) * 2 powi (j - (e - 52))"
    by (simp flip: power_int_add)
  also have "(2 :: real) powi (j - (e - 52)) = 2 ^ d" using ej by (simp add: d_def power_int_def)
  finally have j: "(2 :: real) powi j = 2 powi (e - 52) * 2 ^ d" .
  have "r / 2 powi (e - 52) = of_int (m * 2 ^ d)"
    by (simp add: assms(1) j)
  then have "round_even (r / 2 powi (e - 52)) = m * 2 ^ d"
    by (simp only: round_even_of_int)
  then have "of_int (round_even (r / 2 powi (e - 52))) * 2 powi (e - 52) = r"
    by (simp add: assms(1) j)
  with False assms(4) show ?thesis
    by (simp add: rnd_def Let_def e_def)
qed

subsection \<open>Outcomes of the stability check\<close>

lemma fmin_Fin: "fmin (Fin a) (Fin b) = Fin (min a b)"
  by (simp add: fmin_def min_def)

lemma dadd_Fin: "dadd (Fin a) (Fin b) = (if a + b = 0 then Fin 0 else rnd (a + b))"
  by (auto simp: dadd_def zero_of_def)

lemma dmul_Fin:
  "dmul (Fin a) (Fin b) =
     (if a = 0 \<or> b = 0 then zero_of ((a < 0) \<noteq> (b < 0)) else rnd (a * b))"
  by (simp add: dmul_def)

lemma ddiv_Fin:
  "ddiv (Fin a) (Fin b) =
     (if b = 0 then (if a = 0 then NaN else inf_of (a < 0))
      else if a = 0 then zero_of (b < 0)
      else rnd (a / b))"
  by (simp add: ddiv_def)

lemma checkDarcyStability_diffusion:
  "checkDarcyStability s = Inl DiffusionUnstable \<longleftrightarrow> dgt (diffusion_number s) (Fin (1 / 2))"
  by (cases "find (offending s) (cells_xyz s)")
     (auto simp: checkDarcyStability_find advection_fatal_def split: prod.splits)

lemma find_None_pass:
  "\<forall>c \<in> set (cells_xyz s). \<not> offending s c \<Longrightarrow> find (offending s) (cells_xyz s) = None"
  by (simp add: find_None_iff)

lemma checkDarcyStability_pass:
  assumes "\<not> dgt (diffusion_number s) (Fin (1 / 2))"
    and "\<forall>c \<in> set (cells_xyz s). \<not> offending s c"
  shows "checkDarcyStability s = Inr s"
  using assms(1) find_None_pass [OF assms(2)] by (simp add: checkDarcyStability_find)

lemma checkDarcyStability_advection:
  assumes "checkDarcyStability s = Inl (AdvectionUnstable x y z v)"
  shows "\<not> dgt (diffusion_number s) (Fin (1 / 2))"
    and "\<exists>before after. cells_xyz s = before @ (x, y, z) # after
           \<and> (\<forall>c \<in> set before. \<not> offending s c)"
    and "offending s (x, y, z)" and "v = velocity s (x, y, z)"
proof -
  show d: "\<not> dgt (diffusion_number s) (Fin (1 / 2))"
    using assms by (auto simp: checkDarcyStability_find)
  with assms obtain c where f: "find (offending s) (cells_xyz s) = Some c"
    and e: "advection_fatal s c = AdvectionUnstable x y z v"
    by (auto simp: checkDarcyStability_find split: option.splits)
  from e have c: "c = (x, y, z)" and v: "v = velocity s (x, y, z)"
    by (auto simp: advection_fatal_def split: prod.splits)
  from f c obtain i where i: "i < length (cells_xyz s)" "offending s (cells_xyz s ! i)"
    "(x, y, z) = cells_xyz s ! i" "\<forall>j<i. \<not> offending s (cells_xyz s ! j)"
    by (auto simp: find_Some_iff)
  show "offending s (x, y, z)" using i by simp
  show "v = velocity s (x, y, z)" by (rule v)
  have "cells_xyz s = take i (cells_xyz s) @ (x, y, z) # drop (Suc i) (cells_xyz s)"
    using i(1,3) by (simp add: id_take_nth_drop)
  moreover have "\<forall>c \<in> set (take i (cells_xyz s)). \<not> offending s c"
  proof
    fix c assume "c \<in> set (take i (cells_xyz s))"
    then obtain j where "j < i" "c = cells_xyz s ! j"
      using i(1) by (auto simp: in_set_conv_nth)
    with i(4) show "\<not> offending s c" by simp
  qed
  ultimately show "\<exists>before after. cells_xyz s = before @ (x, y, z) # after
           \<and> (\<forall>c \<in> set before. \<not> offending s c)"
    by blast
qed

lemma checkDarcyStability_offending:
  assumes "\<not> dgt (diffusion_number s) (Fin (1 / 2))" "c \<in> set (cells_xyz s)" "offending s c"
  shows "\<exists>x y z v. checkDarcyStability s = Inl (AdvectionUnstable x y z v)"
proof -
  from assms(2,3) have "find (offending s) (cells_xyz s) \<noteq> None"
    using find_None_iff [of "offending s" "cells_xyz s"] by blast
  then obtain c' where "find (offending s) (cells_xyz s) = Some c'" by auto
  with assms(1) show ?thesis
    by (cases c') (simp add: checkDarcyStability_find advection_fatal_def)
qed

subsection \<open>Outcomes of the residual statistics\<close>

lemma find_Some_first:
  assumes "find P xs = Some c"
  shows "P c \<and> (\<exists>before after. xs = before @ c # after \<and> (\<forall>b \<in> set before. \<not> P b))"
  using assms
proof (induction xs)
  case Nil
  then show ?case by simp
next
  case (Cons x xs)
  show ?case
  proof (cases "P x")
    case True
    with Cons.prems have "c = x" by simp
    with True have "P c \<and> x # xs = [] @ c # xs \<and> (\<forall>b \<in> set []. \<not> P b)" by simp
    then show ?thesis by blast
  next
    case False
    with Cons obtain before after where
      "P c" "xs = before @ c # after" "\<forall>b \<in> set before. \<not> P b" by auto
    with False have "P c \<and> x # xs = (x # before) @ c # after \<and> (\<forall>b \<in> set (x # before). \<not> P b)"
      by simp
    then show ?thesis by blast
  qed
qed

lemma first_nan_cell_fatal:
  assumes "c \<in> set (cells_zyx s)" "residualNorm s c = NaN"
  shows "\<exists>c'. avgNormResDarcy a s = Inl (residual_fatal s c')
           \<and> maxNormResDarcy s = Inl (residual_fatal s c')
           \<and> residualNorm s c' = NaN
           \<and> (\<exists>before after. cells_zyx s = before @ c' # after
                \<and> (\<forall>b \<in> set before. residualNorm s b \<noteq> NaN))"
proof -
  from assms have "find (\<lambda>c. residualNorm s c = NaN) (cells_zyx s) \<noteq> None"
    using find_None_iff [of "\<lambda>c. residualNorm s c = NaN" "cells_zyx s"] by blast
  then obtain c' where f: "find (\<lambda>c. residualNorm s c = NaN) (cells_zyx s) = Some c'" by auto
  from find_Some_first [OF f]
  have "residualNorm s c' = NaN
           \<and> (\<exists>before after. cells_zyx s = before @ c' # after
                \<and> (\<forall>b \<in> set before. residualNorm s b \<noteq> NaN))" by simp
  moreover have "avgNormResDarcy a s = Inl (residual_fatal s c')"
    by (simp add: avgNormResDarcy_find f)
  moreover have "maxNormResDarcy s = Inl (residual_fatal s c')"
    by (simp add: maxNormResDarcy_find f)
  ultimately show ?thesis by blast
qed

lemma max_step_not_NaN: "m \<noteq> NaN \<Longrightarrow> max_step m r \<noteq> NaN"
  by (cases r) (auto simp: max_step_def)

lemma foldl_max_step_not_NaN: "m \<noteq> NaN \<Longrightarrow> foldl max_step m rs \<noteq> NaN"
  by (induction rs arbitrary: m) (simp_all add: max_step_not_NaN)

lemma maxNormResDarcy_not_NaN: "maxNormResDarcy s \<noteq> Inr (NaN, s')"
  using foldl_max_step_not_NaN [of "Fin (- 1000000000)" "map (residualNorm s) (cells_zyx s)"]
  by (auto simp: maxNormResDarcy_find split: option.splits)

lemma avgNormResDarcy_frame: "avgNormResDarcy a s = Inr (r, s') \<Longrightarrow> s' = s"
  by (auto simp: avgNormResDarcy_find split: option.splits)

lemma maxNormResDarcy_frame: "maxNormResDarcy s = Inr (r, s') \<Longrightarrow> s' = s"
  by (auto simp: maxNormResDarcy_find split: option.splits)

lemma dgt_pos:
  assumes "dgt M (Fin 0)"
  shows "M \<noteq> NaN" "dgt M (Fin (- 1000000000))" "\<not> dgt (Fin 0) M"
    "\<not> dgt (Fin (- 1000000000)) M" "\<not> dgt M M"
  using assms by (cases M; simp)+

lemma foldl_max_step_single:
  assumes "dgt M (Fin 0)" "\<forall>r \<in> set rs. r = Fin 0 \<or> r = M"
  shows "foldl max_step M rs = M"
    and "m = Fin 0 \<or> m = Fin (- 1000000000) \<Longrightarrow> M \<in> set rs \<Longrightarrow> foldl max_step m rs = M"
proof -
  have M: "foldl max_step M rs = M" if "\<forall>r \<in> set rs. r = Fin 0 \<or> r = M" for rs
    using that dgt_pos [OF assms(1)] by (induction rs) (auto simp: max_step_def)
  from assms(2) show "foldl max_step M rs = M" by (rule M)
  show "foldl max_step m rs = M" if "m = Fin 0 \<or> m = Fin (- 1000000000)" "M \<in> set rs"
    using that assms(2)
  proof (induction rs arbitrary: m)
    case Nil
    then show ?case by simp
  next
    case (Cons r rs)
    show ?case
    proof (cases "r = M")
      case True
      with Cons.prems(1) dgt_pos [OF assms(1)] assms(1) have "max_step m r = M"
        by (auto simp: max_step_def)
      with Cons.prems(3) M [of rs] show ?thesis by simp
    next
      case False
      with Cons.prems have r: "r = Fin 0" and "M \<in> set rs" by auto
      with Cons.prems(1) have "max_step m r = Fin 0" by (auto simp: max_step_def)
      with Cons.IH [of "Fin 0"] Cons.prems(3) \<open>M \<in> set rs\<close> show ?thesis by simp
    qed
  qed
qed

lemma max_of_single_peak:
  assumes "c0 \<in> set (cells_zyx s)" "dgt M (Fin 0)"
    and "\<forall>c \<in> set (cells_zyx s). residualNorm s c = (if c = c0 then M else Fin 0)"
  shows "maxNormResDarcy s = Inr (M, s)"
proof -
  from assms(2) have M: "M \<noteq> NaN" by (rule dgt_pos)
  with assms(3) have "\<forall>c \<in> set (cells_zyx s). residualNorm s c \<noteq> NaN" by auto
  then have f: "find (\<lambda>c. residualNorm s c = NaN) (cells_zyx s) = None"
    by (simp add: find_None_iff)
  from assms(1,3) have "residualNorm s c0 = M" by simp
  with assms(1) have "M \<in> set (map (residualNorm s) (cells_zyx s))" by force
  moreover have "\<forall>r \<in> set (map (residualNorm s) (cells_zyx s)). r = Fin 0 \<or> r = M"
    using assms(3) by auto
  ultimately have "foldl max_step (Fin (- 1000000000)) (map (residualNorm s) (cells_zyx s)) = M"
    using foldl_max_step_single(2) [OF assms(2)] by blast
  then show ?thesis by (simp add: maxNormResDarcy_find f)
qed

lemma dgt_trans_le:
  "m \<noteq> NaN \<Longrightarrow> \<not> dgt x m \<Longrightarrow> \<not> dgt m r \<Longrightarrow> \<not> dgt x r"
  by (cases x; cases m; cases r) simp_all

lemma dgt_asym: "dgt a b \<Longrightarrow> \<not> dgt b a"
  by (cases a; cases b) simp_all

lemma foldl_max_step_bound:
  assumes "\<forall>x \<in> set rs. x \<noteq> NaN" "m \<noteq> NaN"
  shows "(foldl max_step m rs = m \<or> foldl max_step m rs \<in> set rs)
         \<and> \<not> dgt m (foldl max_step m rs)
         \<and> (\<forall>x \<in> set rs. \<not> dgt x (foldl max_step m rs))"
  using assms
proof (induction rs arbitrary: m)
  case Nil
  then show ?case by (simp add: dgt_irrefl)
next
  case (Cons r rs)
  let ?m' = "max_step m r" and ?res = "foldl max_step (max_step m r) rs"
  from Cons.prems have n: "?m' \<noteq> NaN" by (simp add: max_step_not_NaN)
  from Cons.IH [OF _ n] Cons.prems
  have ih: "?res = ?m' \<or> ?res \<in> set rs" "\<not> dgt ?m' ?res" "\<forall>x \<in> set rs. \<not> dgt x ?res"
    by auto
  have m': "?m' = m \<or> ?m' = r" "\<not> dgt m ?m'" "\<not> dgt r ?m'"
    by (auto simp: max_step_def dgt_irrefl dgt_asym)
  have "\<not> dgt m ?res" using dgt_trans_le [OF n m'(2) ih(2)] .
  moreover have "\<not> dgt r ?res" using dgt_trans_le [OF n m'(3) ih(2)] .
  moreover have "?res = m \<or> ?res \<in> set (r # rs)" using ih(1) m'(1) by auto
  ultimately show ?case using ih(3) by simp
qed

lemma maxNormResDarcy_is_max:
  assumes "\<forall>c \<in> set (cells_zyx s). residualNorm s c \<noteq> NaN"
  shows "\<exists>r. maxNormResDarcy s = Inr (r, s)
           \<and> (r = Fin (- 1000000000) \<or> r \<in> residualNorm s ` set (cells_zyx s))
           \<and> \<not> dgt (Fin (- 1000000000)) r
           \<and> (\<forall>c \<in> set (cells_zyx s). \<not> dgt (residualNorm s c) r)"
proof -
  from assms have f: "find (\<lambda>c. residualNorm s c = NaN) (cells_zyx s) = None"
    by (simp add: find_None_iff)
  have "\<forall>x \<in> set (map (residualNorm s) (cells_zyx s)). x \<noteq> NaN" using assms by auto
  from foldl_max_step_bound [OF this, of "Fin (- 1000000000)"]
  show ?thesis by (simp add: maxNormResDarcy_find f)
qed

subsection \<open>Signs under rounding\<close>

lemma rnd_not_positive: "r \<le> 0 \<Longrightarrow> \<not> dgt (rnd r) (Fin 0)"
  using rnd_nonpos [of r] by auto

lemma dmul_not_positive:
  assumes "0 < V" "\<not> dgt (Fin 0) dt"
  shows "\<not> dgt (dmul (Fin (- V)) dt) (Fin 0)"
proof (cases dt)
  case (Fin t)
  with assms have "- V * t \<le> 0" by (simp add: mult_nonneg_nonneg)
  with Fin show ?thesis by (simp add: dmul_Fin zero_of_def rnd_not_positive)
qed (use assms in \<open>simp_all add: dmul_def zero_of_def inf_of_def\<close>)

lemma ddiv_not_positive:
  assumes "\<not> dgt p (Fin 0)" "dgt d (Fin 0)"
  shows "\<not> dgt (ddiv p d) (Fin 0)"
proof (cases d)
  case d: (Fin b)
  with assms(2) have b: "0 < b" by simp
  show ?thesis
  proof (cases p)
    case (Fin a)
    with assms(1) have "a \<le> 0" by simp
    with b have "a / b \<le> 0" by (simp add: divide_nonpos_pos)
    with Fin d b show ?thesis by (simp add: ddiv_Fin zero_of_def rnd_not_positive)
  qed (use assms(1) d b in \<open>simp_all add: ddiv_def zero_of_def inf_of_def\<close>)
next
  case PInf
  with assms(1) show ?thesis by (cases p) (simp_all add: ddiv_def zero_of_def inf_of_def)
qed (use assms(2) in simp_all)

lemma zero_term:
  "ddiv (dmul (Fin 0) dt) d = Fin 0 \<or> ddiv (dmul (Fin 0) dt) d = MZero
   \<or> ddiv (dmul (Fin 0) dt) d = NaN"
  by (cases dt; cases d) (simp_all add: dmul_def ddiv_def zero_of_def inf_of_def)

lemma dadd_not_positive:
  assumes "\<not> dgt a (Fin 0)" "b = Fin 0 \<or> b = MZero \<or> b = NaN"
  shows "\<not> dgt (dadd a b) (Fin 0)"
proof (cases a)
  case (Fin v)
  with assms(1) have "v \<le> 0" by simp
  with Fin assms(2) show ?thesis by (auto simp: dadd_def zero_of_def rnd_not_positive)
qed (use assms in \<open>auto simp: dadd_def zero_of_def\<close>)

lemma not_positive_le_one: "\<not> dgt a (Fin 0) \<Longrightarrow> \<not> dgt a (Fin 1)"
  by (cases a) simp_all

lemma courant_backflow:
  assumes "0 < V" "\<not> dgt (Fin 0) (time_dt s)" "dgt (cellSize s 0) (Fin 0)"
  shows "\<not> dgt (courant s \<lparr>fx = Fin (- V), fy = Fin 0, fz = Fin 0\<rparr>) (Fin 1)"
proof -
  have "\<not> dgt (ddiv (dmul (Fin (- V)) (time_dt s)) (cellSize s 0)) (Fin 0)"
    using assms by (intro ddiv_not_positive dmul_not_positive)
  then have "\<not> dgt (dadd (ddiv (dmul (Fin (- V)) (time_dt s)) (cellSize s 0))
                 (ddiv (dmul (Fin 0) (time_dt s)) (cellSize s 1))) (Fin 0)"
    using zero_term by (rule dadd_not_positive)
  then have "\<not> dgt (dadd (dadd (ddiv (dmul (Fin (- V)) (time_dt s)) (cellSize s 0))
                 (ddiv (dmul (Fin 0) (time_dt s)) (cellSize s 1)))
                 (ddiv (dmul (Fin 0) (time_dt s)) (cellSize s 2))) (Fin 0)"
    using zero_term by (rule dadd_not_positive)
  then show ?thesis
    unfolding courant_def by (simp add: not_positive_le_one)
qed

lemma dle_not_dgt: "dle a b \<Longrightarrow> \<not> dgt a b"
  by (simp add: dle_def)

subsection \<open>Rounding, on numbers\<close>

text \<open>Binary64 numbers round to themselves.\<close>

lemma rnd_values:
  "rnd 1 = Fin 1" "rnd 2 = Fin 2" "rnd 3 = Fin 3" "rnd 9 = Fin 9" "rnd 18 = Fin 18"
  "rnd 28 = Fin 28" "rnd 784 = Fin 784" "rnd (1 / 2) = Fin (1 / 2)" "rnd (1 / 4) = Fin (1 / 4)"
  "rnd (3 / 4) = Fin (3 / 4)" "rnd (3 / 2) = Fin (3 / 2)" "rnd (9 / 4) = Fin (9 / 4)"
  "rnd (5 / 4) = Fin (5 / 4)" "rnd (- (1 / 4)) = Fin (- (1 / 4))" "rnd (- 1) = Fin (- 1)"
  "rnd (- (5 / 4)) = Fin (- (5 / 4))" "rnd (- 2000000) = Fin (- 2000000)"
  "rnd (1 / 9007199254740992) = Fin (1 / 9007199254740992)"
  using rnd_exact [of 1 1 0] rnd_exact [of 2 2 0] rnd_exact [of 3 3 0] rnd_exact [of 9 9 0]
    rnd_exact [of 18 18 0] rnd_exact [of 28 28 0] rnd_exact [of 784 784 0]
    rnd_exact [of "1 / 2" 1 "- 1"] rnd_exact [of "1 / 4" 1 "- 2"]
    rnd_exact [of "3 / 4" 3 "- 2"] rnd_exact [of "3 / 2" 3 "- 1"]
    rnd_exact [of "9 / 4" 9 "- 2"] rnd_exact [of "5 / 4" 5 "- 2"]
    rnd_exact [of "- (1 / 4)" "- 1" "- 2"] rnd_exact [of "- 1" "- 1" 0]
    rnd_exact [of "- (5 / 4)" "- 5" "- 2"] rnd_exact [of "- 2000000" "- 2000000" 0]
    rnd_exact [of "1 / 9007199254740992" 1 "- 53"]
  by simp_all

text \<open>
  Results that are not binary64 numbers: a product just above \<open>0.5\<close>, the tie
  \<open>1 + 2^-53\<close>, the quotients \<open>9/28\<close>, \<open>18/28\<close> and \<open>1/28\<close> with their two sums, and the
  quotient of \<open>1\<close> by the binary64 number nearest to \<open>0.1\<close>.
\<close>

lemma rnd_inexact_values:
  "rnd ((1 + 1 / 2 ^ 52) * (1 / 2 - 1 / 2 ^ 54)) = Fin (1 / 2)"
  "rnd (1 + 1 / 2 ^ 53) = Fin 1"
  "rnd (9 / 28) = Fin (5790342378047781 / 2 ^ 54)"
  "rnd (18 / 28) = Fin (5790342378047781 / 2 ^ 53)"
  "rnd (1 / 28) = Fin (5146971002709138 / 2 ^ 57)"
  "rnd (5790342378047781 / 2 ^ 54 + 5790342378047781 / 2 ^ 53)
     = Fin (8685513567071672 / 2 ^ 53)"
  "rnd (8685513567071672 / 2 ^ 53 + 5146971002709138 / 2 ^ 57) = Fin (1 + 1 / 2 ^ 52)"
  "rnd (1 / (3602879701896397 / 2 ^ 55)) = Fin 10"
proof -
  show "rnd ((1 + 1 / 2 ^ 52) * (1 / 2 - 1 / 2 ^ 54)) = Fin (1 / 2)"
    by (subst rnd_eval [of _ "- 1"]) (simp_all add: round_even_def Let_def zero_of_def inf_of_def)
  show "rnd (1 + 1 / 2 ^ 53) = Fin 1"
    by (subst rnd_eval [of _ 0]) (simp_all add: round_even_def Let_def zero_of_def inf_of_def)
  show "rnd (9 / 28) = Fin (5790342378047781 / 2 ^ 54)"
    by (subst rnd_eval [of _ "- 2"]) (simp_all add: round_even_def Let_def zero_of_def inf_of_def)
  show "rnd (18 / 28) = Fin (5790342378047781 / 2 ^ 53)"
    by (subst rnd_eval [of _ "- 1"]) (simp_all add: round_even_def Let_def zero_of_def inf_of_def)
  show "rnd (1 / 28) = Fin (5146971002709138 / 2 ^ 57)"
    by (subst rnd_eval [of _ "- 5"]) (simp_all add: round_even_def Let_def zero_of_def inf_of_def)
  show "rnd (5790342378047781 / 2 ^ 54 + 5790342378047781 / 2 ^ 53)
     = Fin (8685513567071672 / 2 ^ 53)"
    by (subst rnd_eval [of _ "- 1"]) (simp_all add: round_even_def Let_def zero_of_def inf_of_def)
  show "rnd (8685513567071672 / 2 ^ 53 + 5146971002709138 / 2 ^ 57) = Fin (1 + 1 / 2 ^ 52)"
    by (subst rnd_eval [of _ 0]) (simp_all add: round_even_def Let_def zero_of_def inf_of_def)
  show "rnd (1 / (3602879701896397 / 2 ^ 55)) = Fin 10"
    by (subst rnd_eval [of _ 3]) (simp_all add: round_even_def Let_def zero_of_def inf_of_def)
qed

text \<open>The same, as rules that apply to every way of writing the argument.\<close>

lemma rnd_inexact:
  "r = (1 + 1 / 2 ^ 52) * (1 / 2 - 1 / 2 ^ 54) \<Longrightarrow> rnd r = Fin (1 / 2)"
  "r = 1 + 1 / 2 ^ 53 \<Longrightarrow> rnd r = Fin 1"
  "r = 9 / 28 \<Longrightarrow> rnd r = Fin (5790342378047781 / 2 ^ 54)"
  "r = 18 / 28 \<Longrightarrow> rnd r = Fin (5790342378047781 / 2 ^ 53)"
  "r = 1 / 28 \<Longrightarrow> rnd r = Fin (5146971002709138 / 2 ^ 57)"
  "r = 5790342378047781 / 2 ^ 54 + 5790342378047781 / 2 ^ 53
     \<Longrightarrow> rnd r = Fin (8685513567071672 / 2 ^ 53)"
  "r = 8685513567071672 / 2 ^ 53 + 5146971002709138 / 2 ^ 57
     \<Longrightarrow> rnd r = Fin (1 + 1 / 2 ^ 52)"
  "r = 1 / (3602879701896397 / 2 ^ 55) \<Longrightarrow> rnd r = Fin 10"
  by (simp_all only: rnd_inexact_values)

subsection \<open>The example states, evaluated\<close>

lemma cells_example:
  "cells_xyz example_dem = [(0, 0, 0), (1, 0, 0)]"
  "cells_zyx example_dem = [(0, 0, 0), (1, 0, 0)]"
  by (simp_all add: cells_xyz_def cells_zyx_def example_dem_def upt_conv_Cons)

lemma cells_variants:
  "cells_zyx nan_dem = cells_zyx example_dem"
  "cells_zyx peak_dem = cells_zyx example_dem"
  "cells_zyx tenth_dem = cells_zyx example_dem"
  "cells_xyz bound_dem = cells_xyz example_dem"
  "cells_xyz viscous_dem = cells_xyz example_dem"
  "cells_xyz backflow_dem = cells_xyz example_dem"
  "cells_xyz negative_dt_dem = cells_xyz example_dem"
  "cells_xyz negative_dx_dem = cells_xyz example_dem"
  "cells_xyz round_down_dem = cells_xyz example_dem"
  "cells_xyz tie_dem = cells_xyz example_dem"
  "cells_xyz round_up_dem = cells_xyz example_dem"
  by (simp_all add: cells_xyz_def cells_zyx_def nan_dem_def peak_dem_def tenth_dem_def
      bound_dem_def viscous_dem_def backflow_dem_def negative_dt_dem_def negative_dx_dem_def
      round_down_dem_def tie_dem_def round_up_dem_def)

lemma d_idx_example:
  "d_idx example_dem 0 0 0 = 17" "d_idx example_dem 1 0 0 = 18"
  by (simp_all add: d_idx_def example_dem_def)

lemma d_idx_variants:
  "d_idx nan_dem = d_idx example_dem"
  "d_idx peak_dem = d_idx example_dem"
  "d_idx tenth_dem = d_idx example_dem"
  "d_idx bound_dem = d_idx example_dem"
  "d_idx backflow_dem = d_idx example_dem"
  "d_idx negative_dt_dem = d_idx example_dem"
  "d_idx negative_dx_dem = d_idx example_dem"
  "d_idx round_down_dem = d_idx example_dem"
  "d_idx tie_dem = d_idx example_dem"
  "d_idx round_up_dem = d_idx example_dem"
  by (simp_all add: d_idx_def fun_eq_iff nan_dem_def peak_dem_def tenth_dem_def bound_dem_def
      backflow_dem_def negative_dt_dem_def negative_dx_dem_def round_down_dem_def tie_dem_def
      round_up_dem_def)

lemma cellSize_example:
  "cellSize example_dem 0 = Fin 1" "cellSize example_dem 1 = Fin 1"
  "cellSize example_dem (Suc 0) = Fin 1" "cellSize example_dem 2 = Fin 1"
  by (simp_all add: cellSize_def of_uint_def example_dem_def rnd_values ddiv_Fin dmul_Fin dadd_Fin zero_of_def inf_of_def)

lemma cellSize_variants:
  "cellSize bound_dem = cellSize example_dem"
  "cellSize viscous_dem = cellSize example_dem"
  "cellSize backflow_dem = cellSize example_dem"
  "cellSize negative_dt_dem = cellSize example_dem"
  "cellSize round_down_dem = cellSize example_dem"
  "cellSize tie_dem = cellSize example_dem"
  by (simp_all add: cellSize_def fun_eq_iff bound_dem_def viscous_dem_def backflow_dem_def
      negative_dt_dem_def round_down_dem_def tie_dem_def)

lemma cellSize_negative_dx:
  "cellSize negative_dx_dem 0 = Fin (- 1)" "cellSize negative_dx_dem 1 = Fin 1"
  "cellSize negative_dx_dem (Suc 0) = Fin 1" "cellSize negative_dx_dem 2 = Fin 1"
  by (simp_all add: cellSize_def of_uint_def negative_dx_dem_def example_dem_def rnd_values ddiv_Fin dmul_Fin dadd_Fin zero_of_def inf_of_def)

lemma cellSize_round_up:
  "cellSize round_up_dem 0 = Fin 28" "cellSize round_up_dem 1 = Fin 28"
  "cellSize round_up_dem (Suc 0) = Fin 28" "cellSize round_up_dem 2 = Fin 28"
  by (simp_all add: cellSize_def of_uint_def round_up_dem_def example_dem_def rnd_values ddiv_Fin dmul_Fin dadd_Fin zero_of_def inf_of_def)

lemma dmin_example:
  "dmin example_dem = Fin 1" "dmin bound_dem = Fin 1" "dmin viscous_dem = Fin 1"
  "dmin backflow_dem = Fin 1" "dmin negative_dt_dem = Fin 1" "dmin round_down_dem = Fin 1"
  "dmin tie_dem = Fin 1" "dmin negative_dx_dem = Fin (- 1)" "dmin round_up_dem = Fin 28"
  by (simp_all add: dmin_def cellSize_variants cellSize_example cellSize_negative_dx
      cellSize_round_up fmin_def del: One_nat_def)

lemma diffusion_number_example:
  "diffusion_number example_dem = Fin (1 / 4)"
  "diffusion_number viscous_dem = Fin 2"
  "diffusion_number bound_dem = Fin (1 / 2)"
  "diffusion_number backflow_dem = Fin (1 / 4)"
  "diffusion_number negative_dt_dem = Fin (- (1 / 4))"
  "diffusion_number negative_dx_dem = Fin (1 / 4)"
  "diffusion_number round_down_dem = Fin (1 / 2)"
  "diffusion_number tie_dem = Fin 0"
  "diffusion_number round_up_dem = Fin 0"
  by (simp_all add: diffusion_number_def dmin_example)
     (simp_all add: example_dem_def viscous_dem_def bound_dem_def backflow_dem_def
       negative_dt_dem_def negative_dx_dem_def round_down_dem_def tie_dem_def round_up_dem_def
       rnd_values rnd_inexact ddiv_Fin dmul_Fin dadd_Fin dadd_def dmul_def ddiv_def
       zero_of_def inf_of_def)

lemma residualNorm_example:
  "residualNorm example_dem (0, 0, 0) = Fin 0" "residualNorm example_dem (1, 0, 0) = Fin 0"
  "residualNorm nan_dem (0, 0, 0) = Fin 0" "residualNorm nan_dem (1, 0, 0) = NaN"
  "residualNorm peak_dem (0, 0, 0) = Fin 0" "residualNorm peak_dem (1, 0, 0) = Fin 5"
  "residualNorm tenth_dem (0, 0, 0) = Fin 0" "residualNorm tenth_dem (1, 0, 0) = NaN"
  by (simp_all add: residualNorm_def d_idx_variants d_idx_example)
     (simp_all add: example_dem_def nan_dem_def peak_dem_def tenth_dem_def)

lemma velocity_example:
  "velocity example_dem (0, 0, 0) = \<lparr>fx = Fin (3 / 8), fy = Fin (3 / 8), fz = Fin (3 / 8)\<rparr>"
  "velocity bound_dem (0, 0, 0) = \<lparr>fx = Fin (1 / 2), fy = Fin 0, fz = Fin 0\<rparr>"
  "velocity bound_dem (1, 0, 0) = \<lparr>fx = Fin (1 / 2), fy = Fin 0, fz = Fin 0\<rparr>"
  "velocity backflow_dem (0, 0, 0) = \<lparr>fx = Fin (- 1000000), fy = Fin 0, fz = Fin 0\<rparr>"
  "velocity backflow_dem (1, 0, 0) = \<lparr>fx = Fin (- 1000000), fy = Fin 0, fz = Fin 0\<rparr>"
  "velocity negative_dt_dem (0, 0, 0) = \<lparr>fx = Fin (- (5 / 8)), fy = Fin 0, fz = Fin 0\<rparr>"
  "velocity negative_dx_dem (0, 0, 0) = \<lparr>fx = Fin (- (5 / 8)), fy = Fin 0, fz = Fin 0\<rparr>"
  "velocity round_down_dem (0, 0, 0) = \<lparr>fx = Fin 0, fy = Fin 0, fz = Fin 0\<rparr>"
  "velocity round_down_dem (1, 0, 0) = \<lparr>fx = Fin 0, fy = Fin 0, fz = Fin 0\<rparr>"
  "velocity tie_dem (0, 0, 0) = \<lparr>fx = Fin 1, fy = Fin (1 / 2 ^ 53), fz = Fin (1 / 2 ^ 53)\<rparr>"
  "velocity tie_dem (1, 0, 0) = \<lparr>fx = Fin 1, fy = Fin (1 / 2 ^ 53), fz = Fin (1 / 2 ^ 53)\<rparr>"
  "velocity round_up_dem (0, 0, 0) = \<lparr>fx = Fin 9, fy = Fin 18, fz = Fin 1\<rparr>"
  "velocity round_up_dem (1, 0, 0) = \<lparr>fx = Fin 9, fy = Fin 18, fz = Fin 1\<rparr>"
  "velocity negative_dt_dem (1, 0, 0) = \<lparr>fx = Fin (- (5 / 8)), fy = Fin 0, fz = Fin 0\<rparr>"
  "velocity negative_dx_dem (1, 0, 0) = \<lparr>fx = Fin (- (5 / 8)), fy = Fin 0, fz = Fin 0\<rparr>"
  "velocity example_dem (1, 0, 0) = \<lparr>fx = Fin (3 / 8), fy = Fin (3 / 8), fz = Fin (3 / 8)\<rparr>"
  by (simp_all add: velocity_def example_dem_def bound_dem_def backflow_dem_def
      negative_dt_dem_def negative_dx_dem_def round_down_dem_def tie_dem_def round_up_dem_def)

lemma courant_example:
  "courant example_dem \<lparr>fx = Fin (3 / 8), fy = Fin (3 / 8), fz = Fin (3 / 8)\<rparr> = Fin (9 / 4)"
  "courant bound_dem \<lparr>fx = Fin (1 / 2), fy = Fin 0, fz = Fin 0\<rparr> = Fin 1"
  "courant backflow_dem \<lparr>fx = Fin (- 1000000), fy = Fin 0, fz = Fin 0\<rparr> = Fin (- 2000000)"
  "courant negative_dt_dem \<lparr>fx = Fin (- (5 / 8)), fy = Fin 0, fz = Fin 0\<rparr> = Fin (5 / 4)"
  "courant negative_dx_dem \<lparr>fx = Fin (- (5 / 8)), fy = Fin 0, fz = Fin 0\<rparr> = Fin (5 / 4)"
  "courant round_down_dem \<lparr>fx = Fin 0, fy = Fin 0, fz = Fin 0\<rparr> = Fin 0"
  "courant tie_dem \<lparr>fx = Fin 1, fy = Fin (1 / 2 ^ 53), fz = Fin (1 / 2 ^ 53)\<rparr> = Fin 1"
  "courant round_up_dem \<lparr>fx = Fin 9, fy = Fin 18, fz = Fin 1\<rparr> = Fin (1 + 1 / 2 ^ 52)"
  by (simp_all add: courant_def cellSize_variants cellSize_example cellSize_negative_dx
      cellSize_round_up del: One_nat_def)
     (simp_all add: example_dem_def bound_dem_def backflow_dem_def negative_dt_dem_def
       negative_dx_dem_def round_down_dem_def tie_dem_def round_up_dem_def rnd_values
       rnd_inexact ddiv_Fin dmul_Fin dadd_Fin dadd_def dmul_def ddiv_def zero_of_def inf_of_def)

lemma courant_cells:
  "courant round_down_dem (velocity round_down_dem (0, 0, 0)) = Fin 0"
  "courant round_down_dem (velocity round_down_dem (1, 0, 0)) = Fin 0"
  "courant tie_dem (velocity tie_dem (0, 0, 0)) = Fin 1"
  "courant tie_dem (velocity tie_dem (1, 0, 0)) = Fin 1"
  "courant round_up_dem (velocity round_up_dem (0, 0, 0)) = Fin (1 + 1 / 2 ^ 52)"
  by (simp_all only: velocity_example courant_example)

lemma report_example:
  "residual_fatal nan_dem (1, 0, 0) = ResidualNaN 1 0 0 (Fin 6) (Some 3)"
  "residual_fatal tenth_dem (1, 0, 0) = ResidualNaN 1 0 0 (Fin 1) (Some 10)"
  by (simp_all add: residual_fatal_def int_of_double_def nan_dem_def tenth_dem_def
      example_dem_def rnd_values rnd_inexact ddiv_Fin dmul_Fin dadd_Fin dadd_def dmul_def ddiv_def
       zero_of_def inf_of_def)

section \<open>The claims\<close>

subsection \<open>C1: the index mapping\<close>

text \<open>
  C1, as stated, fails: for the cell counts \<open>nx = ny = 65534\<close>, \<open>nz = 2\<close> (all at least
  one) the products \<open>(nx+2)*(ny+2)\<close> and \<open>(nx+2)*(ny+2)*(nz+2)\<close> wrap around to zero in
  \<^verbatim>\<open>unsigned int\<close> arithmetic, so \<open>d_idx\<close> sends the interior cells \<open>(0,0,0)\<close> and
  \<open>(0,0,1)\<close> to the same offset and \<open>darcyCells\<close> returns \<open>0\<close>.
\<close>

theorem d_idx_overflow_collision:
  "1 \<le> darcy_nx wide_dem \<and> 1 \<le> darcy_ny wide_dem \<and> 1 \<le> darcy_nz wide_dem
   \<and> (0, 0, 0) \<in> padded wide_dem \<and> (0, 0, 1) \<in> padded wide_dem
   \<and> d_idx wide_dem 0 0 0 = d_idx wide_dem 0 0 1
   \<and> \<not> inj_on (d_idx3 wide_dem) (padded wide_dem)
   \<and> darcyCells wide_dem = 0"
proof -
  have p: "(0, 0, 0) \<in> padded wide_dem" "(0, 0, 1) \<in> padded wide_dem"
    by (simp_all add: padded_def wide_dem_def)
  have e: "d_idx wide_dem 0 0 0 = d_idx wide_dem 0 0 1"
    by (simp add: d_idx_def wide_dem_def)
  have "\<not> inj_on (d_idx3 wide_dem) (padded wide_dem)"
  proof
    assume "inj_on (d_idx3 wide_dem) (padded wide_dem)"
    from inj_onD [OF this _ p] e have "(0 :: int, 0 :: int, 0 :: int) = (0, 0, 1)"
      by (simp add: d_idx3_def)
    then show False by simp
  qed
  moreover have "darcyCells wide_dem = 0"
    by (simp add: darcyCells_def wide_dem_def)
  moreover have "1 \<le> darcy_nx wide_dem \<and> 1 \<le> darcy_ny wide_dem \<and> 1 \<le> darcy_nz wide_dem"
    by (simp add: wide_dem_def)
  ultimately show ?thesis using p e by simp
qed

text \<open>
  C1, amended: for every grid whose padded cell count \<open>(nx+2)*(ny+2)*(nz+2)\<close> is
  below \<open>2 ^ 32\<close> (so for every such grid with \<open>nx, ny, nz \<ge> 1\<close>), \<open>d_idx\<close> is injective
  over the padded coordinate range \<open>-1 \<le> x \<le> nx\<close>, \<open>-1 \<le> y \<le> ny\<close>, \<open>-1 \<le> z \<le> nz\<close>,
  the offsets it produces over that range are exactly those below the value returned
  by \<open>darcyCells\<close>, and that value is \<open>(nx+2)*(ny+2)*(nz+2)\<close>.
\<close>

theorem d_idx_bijective:
  assumes "no_overflow s"
  shows "inj_on (d_idx3 s) (padded s)
    \<and> d_idx3 s ` padded s = {i. i < darcyCells s}
    \<and> unat (darcyCells s)
          = (unat (darcy_nx s) + 2) * (unat (darcy_ny s) + 2) * (unat (darcy_nz s) + 2)"
proof (intro conjI)
  show "inj_on (d_idx3 s) (padded s)"
  proof (rule inj_onI)
    fix c c' assume h: "c \<in> padded s" "c' \<in> padded s" "d_idx3 s c = d_idx3 s c'"
    then have "uint (d_idx3 s c) = uint (d_idx3 s c')" by simp
    then have "offset_int s c = offset_int s c'"
      using uint_d_idx3 [OF assms h(1)] uint_d_idx3 [OF assms h(2)] by simp
    with h show "c = c'" by (blast intro: offset_int_inj)
  qed
  show "d_idx3 s ` padded s = {i. i < darcyCells s}"
  proof (intro equalityI subsetI)
    fix i assume "i \<in> d_idx3 s ` padded s"
    then obtain c where c: "c \<in> padded s" "i = d_idx3 s c" by blast
    then have "uint i < uint (darcyCells s)"
      using offset_int_range(2) [OF c(1)]
      by (simp add: uint_d_idx3 [OF assms] uint_darcyCells [OF assms])
    then show "i \<in> {i. i < darcyCells s}" by (simp add: word_less_def)
  next
    fix i assume "i \<in> {i. i < darcyCells s}"
    then have "uint i
        < (uint (darcy_nx s) + 2) * (uint (darcy_ny s) + 2) * (uint (darcy_nz s) + 2)"
      by (simp add: word_less_def uint_darcyCells [OF assms])
    from offset_int_surj [OF _ this] obtain c where c: "c \<in> padded s" "offset_int s c = uint i"
      by auto
    then have "d_idx3 s c = i" by (simp add: d_idx3_offset)
    with c show "i \<in> d_idx3 s ` padded s" by blast
  qed
  have "int (unat (darcyCells s))
      = int ((unat (darcy_nx s) + 2) * (unat (darcy_ny s) + 2) * (unat (darcy_nz s) + 2))"
    using uint_darcyCells [OF assms]
    by (simp only: of_nat_mult of_nat_add of_nat_numeral flip: uint_nat)
  then show "unat (darcyCells s)
          = (unat (darcy_nx s) + 2) * (unat (darcy_ny s) + 2) * (unat (darcy_nz s) + 2)"
    by (simp only: of_nat_eq_iff)
qed

text \<open>C1, witness: the example grid of \<open>2 \<times> 1 \<times> 1\<close> cells, whose padded cell count is 36.\<close>

theorem d_idx_bijective_witness:
  "no_overflow example_dem
   \<and> inj_on (d_idx3 example_dem) (padded example_dem)
   \<and> d_idx3 example_dem ` padded example_dem = {i. i < 36}
   \<and> unat (darcyCells example_dem) = 36"
proof -
  have h: "no_overflow example_dem"
    by (simp add: no_overflow_def example_dem_def)
  have c: "darcyCells example_dem = 36"
    by (simp add: darcyCells_def example_dem_def)
  from d_idx_bijective [OF h] h c show ?thesis by simp
qed

subsection \<open>C7: allocation\<close>

text \<open>
  C7, as stated, fails: for the grid dimensions \<open>65534 \<times> 65534 \<times> 2\<close> the padded cell
  count \<open>(nx+2)*(ny+2)*(nz+2)\<close> is \<open>2 ^ 34\<close>, the value returned by \<open>darcyCells\<close> wraps
  around to \<open>0\<close>, and \<open>initDarcyMem\<close> allocates the five per-cell arrays with no element.
\<close>

theorem initDarcyMem_wraps:
  "grid_num wide_grid_dem 0 = 65534 \<and> grid_num wide_grid_dem 1 = 65534
   \<and> grid_num wide_grid_dem 2 = 2
   \<and> (unat (grid_num wide_grid_dem 0) + 2) * (unat (grid_num wide_grid_dem 1) + 2)
        * (unat (grid_num wide_grid_dem 2) + 2) = 2 ^ 34
   \<and> darcyCells (initDarcyMem zero_mem wide_grid_dem) = 0
   \<and> len (darcy_p (initDarcyMem zero_mem wide_grid_dem)) = 0
   \<and> len (darcy_v (initDarcyMem zero_mem wide_grid_dem)) = 0
   \<and> len (darcy_phi (initDarcyMem zero_mem wide_grid_dem)) = 0
   \<and> len (darcy_dphi (initDarcyMem zero_mem wide_grid_dem)) = 0
   \<and> len (darcy_norm (initDarcyMem zero_mem wide_grid_dem)) = 0"
  by (simp add: initDarcyMem_def darcyCells_def new_array_def Let_def wide_grid_dem_def)

text \<open>
  C7, amended: when the padded cell count \<open>(nx+2)*(ny+2)*(nz+2)\<close> of the grid geometry
  is below \<open>2 ^ 32\<close>, \<open>initDarcyMem\<close> takes \<open>nx, ny, nz\<close> from the grid geometry and
  allocates the five per-cell arrays \<open>p\<close>, \<open>v\<close>, \<open>phi\<close>, \<open>dphi\<close>, \<open>norm\<close>, each with
  \<open>(nx+2)*(ny+2)*(nz+2)\<close> elements, the value \<open>darcyCells\<close> returns, and the particle
  array \<open>f_p\<close> with \<open>np\<close> elements.
\<close>

theorem initDarcyMem_allocates:
  assumes "(unat (grid_num s 0) + 2) * (unat (grid_num s 1) + 2) * (unat (grid_num s 2) + 2)
             < 2 ^ 32"
  shows "darcy_nx (initDarcyMem raw s) = grid_num s 0
   \<and> darcy_ny (initDarcyMem raw s) = grid_num s 1
   \<and> darcy_nz (initDarcyMem raw s) = grid_num s 2
   \<and> unat (darcyCells (initDarcyMem raw s))
        = (unat (grid_num s 0) + 2) * (unat (grid_num s 1) + 2) * (unat (grid_num s 2) + 2)
   \<and> len (darcy_p (initDarcyMem raw s))
        = (unat (grid_num s 0) + 2) * (unat (grid_num s 1) + 2) * (unat (grid_num s 2) + 2)
   \<and> len (darcy_v (initDarcyMem raw s))
        = (unat (grid_num s 0) + 2) * (unat (grid_num s 1) + 2) * (unat (grid_num s 2) + 2)
   \<and> len (darcy_phi (initDarcyMem raw s))
        = (unat (grid_num s 0) + 2) * (unat (grid_num s 1) + 2) * (unat (grid_num s 2) + 2)
   \<and> len (darcy_dphi (initDarcyMem raw s))
        = (unat (grid_num s 0) + 2) * (unat (grid_num s 1) + 2) * (unat (grid_num s 2) + 2)
   \<and> len (darcy_norm (initDarcyMem raw s))
        = (unat (grid_num s 0) + 2) * (unat (grid_num s 1) + 2) * (unat (grid_num s 2) + 2)
   \<and> len (darcy_f_p (initDarcyMem raw s)) = unat (np s)"
proof -
  define s' where "s' = initDarcyMem raw s"
  define N where
    "N = (unat (grid_num s 0) + 2) * (unat (grid_num s 1) + 2) * (unat (grid_num s 2) + 2)"
  have n: "darcy_nx s' = grid_num s 0" "darcy_ny s' = grid_num s 1" "darcy_nz s' = grid_num s 2"
    by (simp_all add: s'_def initDarcyMem_def Let_def)
  with assms have "no_overflow s'" by (simp add: no_overflow_def)
  then have c: "unat (darcyCells s') = N" by (simp add: unat_darcyCells n N_def)
  have l: "len (darcy_p s') = unat (darcyCells s')" "len (darcy_v s') = unat (darcyCells s')"
    "len (darcy_phi s') = unat (darcyCells s')" "len (darcy_dphi s') = unat (darcyCells s')"
    "len (darcy_norm s') = unat (darcyCells s')" "len (darcy_f_p s') = unat (np s)"
    by (simp_all add: s'_def initDarcyMem_def darcyCells_def new_array_def Let_def)
  from n c l show ?thesis unfolding s'_def N_def by (simp only:)
qed

text \<open>
  C7, witness: on the example geometry of \<open>2 \<times> 1 \<times> 1\<close> cells with three particles the
  five per-cell arrays get \<open>4 * 3 * 3 = 36\<close> elements and the particle array three.
\<close>

theorem initDarcyMem_allocates_witness:
  "(unat (grid_num example_dem 0) + 2) * (unat (grid_num example_dem 1) + 2)
      * (unat (grid_num example_dem 2) + 2) < 2 ^ 32
   \<and> darcy_nx (initDarcyMem zero_mem example_dem) = 2
   \<and> darcy_ny (initDarcyMem zero_mem example_dem) = 1
   \<and> darcy_nz (initDarcyMem zero_mem example_dem) = 1
   \<and> unat (darcyCells (initDarcyMem zero_mem example_dem)) = 36
   \<and> len (darcy_p (initDarcyMem zero_mem example_dem)) = 36
   \<and> len (darcy_v (initDarcyMem zero_mem example_dem)) = 36
   \<and> len (darcy_phi (initDarcyMem zero_mem example_dem)) = 36
   \<and> len (darcy_dphi (initDarcyMem zero_mem example_dem)) = 36
   \<and> len (darcy_norm (initDarcyMem zero_mem example_dem)) = 36
   \<and> len (darcy_f_p (initDarcyMem zero_mem example_dem)) = 3"
proof -
  have g: "grid_num example_dem 0 = 2" "grid_num example_dem 1 = 1"
    "grid_num example_dem (Suc 0) = 1" "grid_num example_dem 2 = 1" "np example_dem = 3"
    by (simp_all add: example_dem_def)
  have h: "(unat (grid_num example_dem 0) + 2) * (unat (grid_num example_dem 1) + 2)
      * (unat (grid_num example_dem 2) + 2) < 2 ^ 32"
    by (simp add: g)
  from initDarcyMem_allocates [OF h, of zero_mem] h show ?thesis
    by (simp add: g)
qed

subsection \<open>C3, C4, C9, C10: the stability check\<close>

text \<open>
  C3: \<open>checkDarcyStability\<close> ends the run with the diffusion diagnostic if and only if
  \<open>viscosity * dt / dmin^2 > 0.5\<close>, the left side being the number the source computes
  in double arithmetic: the rounded product of viscosity and time step, divided by the
  rounded square of \<open>dmin\<close>, where \<open>dmin\<close> is the \<^verbatim>\<open>fmin\<close> of the three cell sizes
  \<open>domainLength[axis] / num[axis]\<close> (for finite sizes, the smallest of them). So a
  computed quotient of \<open>0.5 + \<epsilon>\<close> fails and one of \<open>0.5 - \<epsilon>\<close> passes the diffusion
  check, and the outcome is the same for every velocity field.
\<close>

theorem diffusion_check:
  "(checkDarcyStability s = Inl DiffusionUnstable
      \<longleftrightarrow> dgt (diffusion_number s) (Fin (1 / 2)))
   \<and> diffusion_number s = ddiv (dmul (params_mu s) (time_dt s)) (dmul (dmin s) (dmin s))
   \<and> dmin s = fmin (cellSize s 0) (fmin (cellSize s 1) (cellSize s 2))
   \<and> cellSize s 0 = ddiv (grid_L s 0) (of_uint (grid_num s 0))
   \<and> cellSize s 1 = ddiv (grid_L s 1) (of_uint (grid_num s 1))
   \<and> cellSize s 2 = ddiv (grid_L s 2) (of_uint (grid_num s 2))
   \<and> (cellSize s 0 = Fin a \<and> cellSize s 1 = Fin b \<and> cellSize s 2 = Fin c
        \<longrightarrow> dmin s = Fin (min a (min b c)))
   \<and> (diffusion_number s = Fin q \<longrightarrow>
        (checkDarcyStability s = Inl DiffusionUnstable \<longleftrightarrow> 1 / 2 < q))
   \<and> (checkDarcyStability (s\<lparr>darcy_v := w\<rparr>) = Inl DiffusionUnstable
        \<longleftrightarrow> checkDarcyStability s = Inl DiffusionUnstable)"
proof (intro conjI impI)
  show g: "checkDarcyStability s = Inl DiffusionUnstable
      \<longleftrightarrow> dgt (diffusion_number s) (Fin (1 / 2))"
    by (rule checkDarcyStability_diffusion)
  show "diffusion_number s = ddiv (dmul (params_mu s) (time_dt s)) (dmul (dmin s) (dmin s))"
    by (simp add: diffusion_number_def)
  show "dmin s = fmin (cellSize s 0) (fmin (cellSize s 1) (cellSize s 2))"
    by (simp add: dmin_def)
  show "cellSize s 0 = ddiv (grid_L s 0) (of_uint (grid_num s 0))"
    "cellSize s 1 = ddiv (grid_L s 1) (of_uint (grid_num s 1))"
    "cellSize s 2 = ddiv (grid_L s 2) (of_uint (grid_num s 2))"
    by (simp_all only: cellSize_def)
  show "dmin s = Fin (min a (min b c))"
    if "cellSize s 0 = Fin a \<and> cellSize s 1 = Fin b \<and> cellSize s 2 = Fin c"
    using that by (simp only: dmin_def fmin_Fin)
  show "checkDarcyStability s = Inl DiffusionUnstable \<longleftrightarrow> 1 / 2 < q"
    if "diffusion_number s = Fin q"
    using that by (simp add: g)
  have "diffusion_number (s\<lparr>darcy_v := w\<rparr>) = diffusion_number s"
    by (simp add: diffusion_number_def dmin_def cellSize_def)
  then show "checkDarcyStability (s\<lparr>darcy_v := w\<rparr>) = Inl DiffusionUnstable
        \<longleftrightarrow> checkDarcyStability s = Inl DiffusionUnstable"
    by (simp only: checkDarcyStability_diffusion)
qed

text \<open>
  C3, witness: on the example grid the three cell sizes are \<open>1\<close> and \<open>dmin = 1\<close>; with
  viscosity \<open>0.125\<close> and time step \<open>2\<close> the quotient is \<open>0.25\<close> and the diffusion check
  passes, with viscosity \<open>1\<close> it is \<open>2\<close> and the run ends with the diffusion diagnostic.
\<close>

theorem diffusion_check_witness:
  "cellSize example_dem 0 = Fin 1 \<and> cellSize example_dem 1 = Fin 1
   \<and> cellSize example_dem 2 = Fin 1 \<and> dmin example_dem = Fin 1
   \<and> diffusion_number example_dem = Fin (1 / 4)
   \<and> checkDarcyStability example_dem \<noteq> Inl DiffusionUnstable
   \<and> diffusion_number viscous_dem = Fin 2
   \<and> checkDarcyStability viscous_dem = Inl DiffusionUnstable"
proof -
  have k: "cellSize example_dem 0 = Fin 1 \<and> cellSize example_dem 1 = Fin 1
      \<and> cellSize example_dem 2 = Fin 1"
    by (simp add: cellSize_example del: One_nat_def)
  note d = diffusion_number_example(1,2)
  note T = diffusion_check [of example_dem 1 1 1 "1 / 4"]
  note T' = diffusion_check [of viscous_dem _ _ _ 2]
  from T k have m: "dmin example_dem = Fin (min 1 (min 1 1))" by blast
  from T d(1) have "checkDarcyStability example_dem = Inl DiffusionUnstable
      \<longleftrightarrow> (1 / 2 :: real) < 1 / 4"
    by blast
  then have a: "checkDarcyStability example_dem \<noteq> Inl DiffusionUnstable" by simp
  from T' d(2) have "checkDarcyStability viscous_dem = Inl DiffusionUnstable
      \<longleftrightarrow> (1 / 2 :: real) < 2"
    by blast
  then have b: "checkDarcyStability viscous_dem = Inl DiffusionUnstable" by simp
  from k m a b d show ?thesis by simp
qed

text \<open>
  C4: when the diffusion bound holds, \<open>checkDarcyStability\<close> ends the run with the
  advection diagnostic if and only if some interior cell has
  \<open>v.x*dt/dx + v.y*dt/dy + v.z*dt/dz > 1\<close> for its velocity \<open>v\<close>, the sum being the one
  the source computes in double arithmetic, from left to right; the cell reported is
  the first offending one in the order of the scan (no cell before it offends), the
  vector reported is its velocity, and the cells scanned are the interior ones,
  \<open>0 \<le> x < nx\<close>, \<open>0 \<le> y < ny\<close>, \<open>0 \<le> z < nz\<close>.
\<close>

theorem advection_check:
  assumes "\<not> dgt (diffusion_number s) (Fin (1 / 2))"
  shows "((\<exists>x y z v. checkDarcyStability s = Inl (AdvectionUnstable x y z v))
            \<longleftrightarrow> (\<exists>c \<in> set (cells_xyz s). offending s c))
    \<and> (\<forall>x y z v. checkDarcyStability s = Inl (AdvectionUnstable x y z v) \<longrightarrow>
          offending s (x, y, z) \<and> v = velocity s (x, y, z)
          \<and> (\<exists>before after. cells_xyz s = before @ (x, y, z) # after
                \<and> (\<forall>c \<in> set before. \<not> offending s c)))
    \<and> set (cells_xyz s)
         = {(x, y, z). x < unat (darcy_nx s) \<and> y < unat (darcy_ny s) \<and> z < unat (darcy_nz s)}"
proof (intro conjI allI impI)
  show "(\<exists>x y z v. checkDarcyStability s = Inl (AdvectionUnstable x y z v))
            \<longleftrightarrow> (\<exists>c \<in> set (cells_xyz s). offending s c)"
  proof
    assume "\<exists>x y z v. checkDarcyStability s = Inl (AdvectionUnstable x y z v)"
    then obtain x y z v where e: "checkDarcyStability s = Inl (AdvectionUnstable x y z v)"
      by blast
    from checkDarcyStability_advection(2,3) [OF e]
    show "\<exists>c \<in> set (cells_xyz s). offending s c" by auto
  next
    assume "\<exists>c \<in> set (cells_xyz s). offending s c"
    with assms show "\<exists>x y z v. checkDarcyStability s = Inl (AdvectionUnstable x y z v)"
      by (blast dest: checkDarcyStability_offending)
  qed
next
  fix x y z v assume e: "checkDarcyStability s = Inl (AdvectionUnstable x y z v)"
  show "offending s (x, y, z)" by (rule checkDarcyStability_advection(3) [OF e])
  show "v = velocity s (x, y, z)" by (rule checkDarcyStability_advection(4) [OF e])
  show "\<exists>before after. cells_xyz s = before @ (x, y, z) # after
                \<and> (\<forall>c \<in> set before. \<not> offending s c)"
    by (rule checkDarcyStability_advection(2) [OF e])
next
  show "set (cells_xyz s)
         = {(x, y, z). x < unat (darcy_nx s) \<and> y < unat (darcy_ny s) \<and> z < unat (darcy_nz s)}"
    by (rule set_cells_xyz)
qed

text \<open>
  C4, witness: on the example grid the diffusion number is \<open>0.25\<close> and the uniform
  velocity \<open>(0.375, 0.375, 0.375)\<close> gives the Courant number \<open>2.25\<close> in every cell; the
  run ends with the advection diagnostic for the first cell scanned, \<open>(0,0,0)\<close>.
\<close>

theorem advection_check_witness:
  "\<not> dgt (diffusion_number example_dem) (Fin (1 / 2))
   \<and> (0, 0, 0) \<in> set (cells_xyz example_dem)
   \<and> courant example_dem (velocity example_dem (0, 0, 0)) = Fin (9 / 4)
   \<and> offending example_dem (0, 0, 0)
   \<and> (\<exists>x y z v. checkDarcyStability example_dem = Inl (AdvectionUnstable x y z v))
   \<and> checkDarcyStability example_dem
       = Inl (AdvectionUnstable 0 0 0 \<lparr>fx = Fin (3 / 8), fy = Fin (3 / 8), fz = Fin (3 / 8)\<rparr>)"
proof -
  have h: "\<not> dgt (diffusion_number example_dem) (Fin (1 / 2))"
    by (simp add: diffusion_number_example)
  have k: "courant example_dem (velocity example_dem (0, 0, 0)) = Fin (9 / 4)"
    by (simp add: velocity_example courant_example)
  have o: "(0, 0, 0) \<in> set (cells_xyz example_dem)" "offending example_dem (0, 0, 0)"
    by (simp_all add: cells_example offending_def k)
  from advection_check [OF h] o
  have e: "\<exists>x y z v. checkDarcyStability example_dem = Inl (AdvectionUnstable x y z v)"
    by blast
  have "checkDarcyStability example_dem
       = Inl (AdvectionUnstable 0 0 0 \<lparr>fx = Fin (3 / 8), fy = Fin (3 / 8), fz = Fin (3 / 8)\<rparr>)"
    using h o by (simp add: checkDarcyStability_find cells_example advection_fatal_def
        velocity_example)
  with h k o e show ?thesis by simp
qed

text \<open>
  C9: both comparisons are strict. A computed diffusion number of exactly \<open>0.5\<close> does not
  end the run with the diffusion diagnostic, and when the diffusion bound holds (in
  particular at exactly \<open>0.5\<close>) and the computed Courant number of every interior cell
  is exactly \<open>1\<close>, the check returns normally.
\<close>

theorem strict_bounds:
  "(diffusion_number s = Fin (1 / 2) \<longrightarrow> checkDarcyStability s \<noteq> Inl DiffusionUnstable)
   \<and> (\<not> dgt (diffusion_number s) (Fin (1 / 2))
        \<and> (\<forall>c \<in> set (cells_xyz s). courant s (velocity s c) = Fin 1)
      \<longrightarrow> checkDarcyStability s = Inr s)
   \<and> (diffusion_number s = Fin (1 / 2)
        \<and> (\<forall>c \<in> set (cells_xyz s). courant s (velocity s c) = Fin 1)
      \<longrightarrow> checkDarcyStability s = Inr s)"
proof (intro conjI impI)
  show "checkDarcyStability s \<noteq> Inl DiffusionUnstable" if "diffusion_number s = Fin (1 / 2)"
    using that by (simp add: checkDarcyStability_diffusion)
  show "checkDarcyStability s = Inr s"
    if "\<not> dgt (diffusion_number s) (Fin (1 / 2))
        \<and> (\<forall>c \<in> set (cells_xyz s). courant s (velocity s c) = Fin 1)"
    using that by (intro checkDarcyStability_pass) (simp_all add: offending_def)
  show "checkDarcyStability s = Inr s"
    if "diffusion_number s = Fin (1 / 2)
        \<and> (\<forall>c \<in> set (cells_xyz s). courant s (velocity s c) = Fin 1)"
    using that by (intro checkDarcyStability_pass) (simp_all add: offending_def)
qed

text \<open>
  C9, witness: viscosity \<open>0.25\<close>, time step \<open>2\<close> and cell size \<open>1\<close> give the diffusion
  number \<open>0.5\<close>; the uniform velocity \<open>(0.5, 0, 0)\<close> gives the Courant number \<open>1\<close> in both
  interior cells; the check returns normally.
\<close>

theorem strict_bounds_witness:
  "diffusion_number bound_dem = Fin (1 / 2)
   \<and> cells_xyz bound_dem = [(0, 0, 0), (1, 0, 0)]
   \<and> courant bound_dem (velocity bound_dem (0, 0, 0)) = Fin 1
   \<and> courant bound_dem (velocity bound_dem (1, 0, 0)) = Fin 1
   \<and> checkDarcyStability bound_dem \<noteq> Inl DiffusionUnstable
   \<and> checkDarcyStability bound_dem = Inr bound_dem"
proof -
  have d: "diffusion_number bound_dem = Fin (1 / 2)"
    by (rule diffusion_number_example)
  have c: "cells_xyz bound_dem = [(0, 0, 0), (1, 0, 0)]"
    by (simp add: cells_variants cells_example)
  have v: "courant bound_dem (velocity bound_dem (0, 0, 0)) = Fin 1"
    "courant bound_dem (velocity bound_dem (1, 0, 0)) = Fin 1"
    by (simp_all add: velocity_example courant_example del: One_nat_def)
  from c v have a: "\<forall>c \<in> set (cells_xyz bound_dem). courant bound_dem (velocity bound_dem c) = Fin 1"
    by (simp del: One_nat_def)
  from strict_bounds [of bound_dem] d a
  have "checkDarcyStability bound_dem \<noteq> Inl DiffusionUnstable"
    "checkDarcyStability bound_dem = Inr bound_dem"
    by blast+
  with d c v show ?thesis by (simp del: One_nat_def)
qed

text \<open>
  C10, as stated, fails: the sign of the sum also depends on the signs of the time step
  and of the cell sizes, which the source does not check. With the time step \<open>-2\<close> on the
  example grid, or with the domain length \<open>-2\<close> along \<open>x\<close> (so \<open>dx = -1\<close>) and the time
  step \<open>2\<close>, the diffusion bound holds, the uniform velocity \<open>(-0.625, 0, 0)\<close> has the
  signed sum \<open>1.25\<close>, and the run ends with the advection diagnostic.
\<close>

theorem backflow_advection_failure:
  "time_dt negative_dt_dem = Fin (- 2)
   \<and> \<not> dgt (diffusion_number negative_dt_dem) (Fin (1 / 2))
   \<and> cells_xyz negative_dt_dem = [(0, 0, 0), (1, 0, 0)]
   \<and> velocity negative_dt_dem (0, 0, 0) = \<lparr>fx = Fin (- (5 / 8)), fy = Fin 0, fz = Fin 0\<rparr>
   \<and> velocity negative_dt_dem (1, 0, 0) = \<lparr>fx = Fin (- (5 / 8)), fy = Fin 0, fz = Fin 0\<rparr>
   \<and> courant negative_dt_dem (velocity negative_dt_dem (0, 0, 0)) = Fin (5 / 4)
   \<and> checkDarcyStability negative_dt_dem
        = Inl (AdvectionUnstable 0 0 0 \<lparr>fx = Fin (- (5 / 8)), fy = Fin 0, fz = Fin 0\<rparr>)
   \<and> time_dt negative_dx_dem = Fin 2 \<and> cellSize negative_dx_dem 0 = Fin (- 1)
   \<and> \<not> dgt (diffusion_number negative_dx_dem) (Fin (1 / 2))
   \<and> cells_xyz negative_dx_dem = [(0, 0, 0), (1, 0, 0)]
   \<and> velocity negative_dx_dem (0, 0, 0) = \<lparr>fx = Fin (- (5 / 8)), fy = Fin 0, fz = Fin 0\<rparr>
   \<and> velocity negative_dx_dem (1, 0, 0) = \<lparr>fx = Fin (- (5 / 8)), fy = Fin 0, fz = Fin 0\<rparr>
   \<and> courant negative_dx_dem (velocity negative_dx_dem (0, 0, 0)) = Fin (5 / 4)
   \<and> checkDarcyStability negative_dx_dem
        = Inl (AdvectionUnstable 0 0 0 \<lparr>fx = Fin (- (5 / 8)), fy = Fin 0, fz = Fin 0\<rparr>)"
proof -
  have t: "time_dt negative_dt_dem = Fin (- 2)" "time_dt negative_dx_dem = Fin 2"
    by (simp_all add: negative_dt_dem_def negative_dx_dem_def example_dem_def)
  have d: "\<not> dgt (diffusion_number negative_dt_dem) (Fin (1 / 2))"
    "\<not> dgt (diffusion_number negative_dx_dem) (Fin (1 / 2))"
    by (simp_all add: diffusion_number_example)
  have c: "cells_xyz negative_dt_dem = [(0, 0, 0), (1, 0, 0)]"
    "cells_xyz negative_dx_dem = [(0, 0, 0), (1, 0, 0)]"
    by (simp_all add: cells_variants cells_example)
  have k: "courant negative_dt_dem (velocity negative_dt_dem (0, 0, 0)) = Fin (5 / 4)"
    "courant negative_dx_dem (velocity negative_dx_dem (0, 0, 0)) = Fin (5 / 4)"
    by (simp_all add: velocity_example courant_example)
  have r: "checkDarcyStability negative_dt_dem
        = Inl (AdvectionUnstable 0 0 0 \<lparr>fx = Fin (- (5 / 8)), fy = Fin 0, fz = Fin 0\<rparr>)"
    "checkDarcyStability negative_dx_dem
        = Inl (AdvectionUnstable 0 0 0 \<lparr>fx = Fin (- (5 / 8)), fy = Fin 0, fz = Fin 0\<rparr>)"
    using d by (simp_all add: checkDarcyStability_find c offending_def advection_fatal_def
        velocity_example courant_example)
  from t d c k r show ?thesis
    by (simp add: velocity_example cellSize_negative_dx del: One_nat_def)
qed

text \<open>
  C10, amended: the advection check adds the signed components. When the diffusion
  bound holds and the signed sum of every interior cell is at most \<open>1\<close>, the check
  returns normally; a cell whose signed sum is at most \<open>1\<close> is never the one reported;
  and when the time step is not negative and the cell size \<open>dx\<close> is positive, the
  uniform velocity \<open>(-V, 0, 0)\<close> never ends the run with the advection diagnostic,
  however large \<open>V > 0\<close> is.
\<close>

theorem signed_courant:
  "(\<not> dgt (diffusion_number s) (Fin (1 / 2))
      \<and> (\<forall>c \<in> set (cells_xyz s). dle (courant s (velocity s c)) (Fin 1))
     \<longrightarrow> checkDarcyStability s = Inr s)
   \<and> (dle (courant s (velocity s (x, y, z))) (Fin 1)
     \<longrightarrow> checkDarcyStability s \<noteq> Inl (AdvectionUnstable x y z v))
   \<and> (0 < V \<and> \<not> dgt (Fin 0) (time_dt s) \<and> dgt (cellSize s 0) (Fin 0)
       \<and> (\<forall>c \<in> set (cells_xyz s). velocity s c = \<lparr>fx = Fin (- V), fy = Fin 0, fz = Fin 0\<rparr>)
     \<longrightarrow> (\<forall>x y z v. checkDarcyStability s \<noteq> Inl (AdvectionUnstable x y z v)))"
proof (intro conjI impI)
  show "checkDarcyStability s = Inr s"
    if "\<not> dgt (diffusion_number s) (Fin (1 / 2))
      \<and> (\<forall>c \<in> set (cells_xyz s). dle (courant s (velocity s c)) (Fin 1))"
    using that by (intro checkDarcyStability_pass) (auto simp: offending_def dle_not_dgt)
  show "checkDarcyStability s \<noteq> Inl (AdvectionUnstable x y z v)"
    if "dle (courant s (velocity s (x, y, z))) (Fin 1)"
  proof
    assume "checkDarcyStability s = Inl (AdvectionUnstable x y z v)"
    from checkDarcyStability_advection(3) [OF this] that show False
      by (auto simp: offending_def dle_not_dgt)
  qed
  show "\<forall>x y z v. checkDarcyStability s \<noteq> Inl (AdvectionUnstable x y z v)"
    if h: "0 < V \<and> \<not> dgt (Fin 0) (time_dt s) \<and> dgt (cellSize s 0) (Fin 0)
       \<and> (\<forall>c \<in> set (cells_xyz s). velocity s c = \<lparr>fx = Fin (- V), fy = Fin 0, fz = Fin 0\<rparr>)"
  proof (intro allI notI)
    fix x y z v assume e: "checkDarcyStability s = Inl (AdvectionUnstable x y z v)"
    from checkDarcyStability_advection(2) [OF e] have "(x, y, z) \<in> set (cells_xyz s)" by auto
    with h have "velocity s (x, y, z) = \<lparr>fx = Fin (- V), fy = Fin 0, fz = Fin 0\<rparr>" by blast
    moreover from h have "\<not> dgt (courant s \<lparr>fx = Fin (- V), fy = Fin 0, fz = Fin 0\<rparr>) (Fin 1)"
      by (intro courant_backflow) simp_all
    ultimately have "\<not> offending s (x, y, z)" by (simp add: offending_def)
    with checkDarcyStability_advection(3) [OF e] show False by simp
  qed
qed

text \<open>
  C10, witness: with the time step \<open>2\<close> and \<open>dx = 1\<close>, the uniform velocity
  \<open>(-1000000, 0, 0)\<close> on the example grid has the signed sum \<open>-2000000\<close> in both interior
  cells, and the check returns normally.
\<close>

theorem signed_courant_witness:
  "\<not> dgt (diffusion_number backflow_dem) (Fin (1 / 2))
   \<and> time_dt backflow_dem = Fin 2 \<and> cellSize backflow_dem 0 = Fin 1
   \<and> cells_xyz backflow_dem = [(0, 0, 0), (1, 0, 0)]
   \<and> velocity backflow_dem (0, 0, 0) = \<lparr>fx = Fin (- 1000000), fy = Fin 0, fz = Fin 0\<rparr>
   \<and> velocity backflow_dem (1, 0, 0) = \<lparr>fx = Fin (- 1000000), fy = Fin 0, fz = Fin 0\<rparr>
   \<and> courant backflow_dem (velocity backflow_dem (0, 0, 0)) = Fin (- 2000000)
   \<and> courant backflow_dem (velocity backflow_dem (1, 0, 0)) = Fin (- 2000000)
   \<and> checkDarcyStability backflow_dem
        \<noteq> Inl (AdvectionUnstable 0 0 0 \<lparr>fx = Fin (- 1000000), fy = Fin 0, fz = Fin 0\<rparr>)
   \<and> checkDarcyStability backflow_dem = Inr backflow_dem"
proof -
  have d: "\<not> dgt (diffusion_number backflow_dem) (Fin (1 / 2))"
    by (simp add: diffusion_number_example)
  have g: "time_dt backflow_dem = Fin 2" "cellSize backflow_dem 0 = Fin 1"
    by (simp_all add: cellSize_variants cellSize_example) (simp add: backflow_dem_def example_dem_def)
  have c: "cells_xyz backflow_dem = [(0, 0, 0), (1, 0, 0)]"
    by (simp add: cells_variants cells_example)
  note v = velocity_example(4,5)
  have k: "courant backflow_dem (velocity backflow_dem (0, 0, 0)) = Fin (- 2000000)"
    "courant backflow_dem (velocity backflow_dem (1, 0, 0)) = Fin (- 2000000)"
    by (simp_all add: v courant_example del: One_nat_def)
  from c v have u: "\<forall>c \<in> set (cells_xyz backflow_dem).
      velocity backflow_dem c = \<lparr>fx = Fin (- 1000000), fy = Fin 0, fz = Fin 0\<rparr>"
    by (simp del: One_nat_def)
  from c k have b: "\<forall>c \<in> set (cells_xyz backflow_dem).
      dle (courant backflow_dem (velocity backflow_dem c)) (Fin 1)"
    by (simp add: dle_def del: One_nat_def)
  have p: "(0 :: real) < 1000000 \<and> \<not> dgt (Fin 0) (time_dt backflow_dem)
      \<and> dgt (cellSize backflow_dem 0) (Fin 0)"
    by (simp add: g)
  note T = signed_courant [of backflow_dem 0 0 0 _ 1000000]
  from T d b have r: "checkDarcyStability backflow_dem = Inr backflow_dem" by blast
  from T p u have "\<forall>x y z v. checkDarcyStability backflow_dem \<noteq> Inl (AdvectionUnstable x y z v)"
    by blast
  then have "checkDarcyStability backflow_dem
        \<noteq> Inl (AdvectionUnstable 0 0 0 \<lparr>fx = Fin (- 1000000), fy = Fin 0, fz = Fin 0\<rparr>)"
    by blast
  with d g c v k r show ?thesis by (simp del: One_nat_def)
qed

subsection \<open>C2, C5, C6, C8: the residual statistics\<close>

text \<open>
  C2 fails on the code: \<^verbatim>\<open>norm_res_sum\<close> is declared without an initialiser, so the sum
  starts from whatever the stack holds. On the example grid, whose two interior cells
  hold the residual \<open>0\<close>, a stack value of \<open>1\<close> makes \<open>avgNormResDarcy\<close> return
  \<open>(1 + 0 + 0) / 2 = 0.5\<close> where the mean of the field is \<open>0\<close>.
\<close>

theorem avgNormResDarcy_uninitialised_sum:
  "cells_zyx example_dem = [(0, 0, 0), (1, 0, 0)]
   \<and> residualNorm example_dem (0, 0, 0) = Fin 0
   \<and> residualNorm example_dem (1, 0, 0) = Fin 0
   \<and> avgNormResDarcy (Fin 1) example_dem = Inr (Fin (1 / 2), example_dem)"
proof -
  have "find (\<lambda>c. residualNorm example_dem c = NaN) (cells_zyx example_dem) = None"
    by (simp add: cells_example residualNorm_example del: One_nat_def)
  moreover have "of_uint (grid_num example_dem 0 * grid_num example_dem 1 * grid_num example_dem 2)
      = Fin 2"
    by (simp add: of_uint_def example_dem_def)
  ultimately have "avgNormResDarcy (Fin 1) example_dem = Inr (Fin (1 / 2), example_dem)"
    by (simp add: avgNormResDarcy_find cells_example residualNorm_example dadd_Fin ddiv_Fin
        rnd_values del: One_nat_def)
  then show ?thesis
    by (simp add: cells_example residualNorm_example del: One_nat_def)
qed

text \<open>
  C5: if an interior cell of the residual-norm field holds NaN, then \<open>avgNormResDarcy\<close>
  (whatever its sum starts from) and \<open>maxNormResDarcy\<close> both end the run instead of
  returning, with the diagnostic that carries the coordinates of a NaN cell, the first
  one of the scan (so the cell itself when it is the only NaN cell), the current
  simulation time and the iteration count \<^verbatim>\<open>int(time.current/time.dt)\<close>; neither
  returns a result, and \<open>maxNormResDarcy\<close> returns NaN on no field at all.
\<close>

theorem residual_NaN_fatal:
  "(c \<in> set (cells_zyx s) \<and> residualNorm s c = NaN \<longrightarrow>
      (\<exists>x y z.
         avgNormResDarcy a s
           = Inl (ResidualNaN x y z (time_current s)
                   (int_of_double (ddiv (time_current s) (time_dt s))))
         \<and> maxNormResDarcy s
           = Inl (ResidualNaN x y z (time_current s)
                   (int_of_double (ddiv (time_current s) (time_dt s))))
         \<and> (x, y, z) \<in> set (cells_zyx s)
         \<and> residualNorm s (x, y, z) = NaN
         \<and> (\<exists>before after. cells_zyx s = before @ (x, y, z) # after
               \<and> (\<forall>b \<in> set before. residualNorm s b \<noteq> NaN))
         \<and> ((\<forall>b \<in> set (cells_zyx s). residualNorm s b = NaN \<longrightarrow> b = c) \<longrightarrow> (x, y, z) = c))
      \<and> (\<forall>r s'. avgNormResDarcy a s \<noteq> Inr (r, s'))
      \<and> (\<forall>r s'. maxNormResDarcy s \<noteq> Inr (r, s')))
   \<and> maxNormResDarcy s \<noteq> Inr (NaN, s'')"
proof (intro conjI impI)
  assume "c \<in> set (cells_zyx s) \<and> residualNorm s c = NaN"
  then obtain c' where c': "avgNormResDarcy a s = Inl (residual_fatal s c')"
    "maxNormResDarcy s = Inl (residual_fatal s c')" "residualNorm s c' = NaN"
    "\<exists>before after. cells_zyx s = before @ c' # after
        \<and> (\<forall>b \<in> set before. residualNorm s b \<noteq> NaN)"
    using first_nan_cell_fatal [of c s a] by blast
  from c'(4) have m: "c' \<in> set (cells_zyx s)" by auto
  obtain x y z where "c' = (x, y, z)" by (cases c')
  with c' m show "\<exists>x y z.
         avgNormResDarcy a s
           = Inl (ResidualNaN x y z (time_current s)
                   (int_of_double (ddiv (time_current s) (time_dt s))))
         \<and> maxNormResDarcy s
           = Inl (ResidualNaN x y z (time_current s)
                   (int_of_double (ddiv (time_current s) (time_dt s))))
         \<and> (x, y, z) \<in> set (cells_zyx s)
         \<and> residualNorm s (x, y, z) = NaN
         \<and> (\<exists>before after. cells_zyx s = before @ (x, y, z) # after
               \<and> (\<forall>b \<in> set before. residualNorm s b \<noteq> NaN))
         \<and> ((\<forall>b \<in> set (cells_zyx s). residualNorm s b = NaN \<longrightarrow> b = c) \<longrightarrow> (x, y, z) = c)"
    by (auto simp: residual_fatal_def)
  from c'(1) show "\<forall>r s'. avgNormResDarcy a s \<noteq> Inr (r, s')" by simp
  from c'(2) show "\<forall>r s'. maxNormResDarcy s \<noteq> Inr (r, s')" by simp
next
  show "maxNormResDarcy s \<noteq> Inr (NaN, s'')" by (rule maxNormResDarcy_not_NaN)
qed

text \<open>
  C5, witness: with NaN in cell \<open>(1,0,0)\<close> only, at time \<open>6\<close> and time step \<open>2\<close>, both
  functions end the run reporting cell \<open>(1,0,0)\<close>, time \<open>6\<close> and iteration \<open>3\<close>.
\<close>

theorem residual_NaN_fatal_witness:
  "(1, 0, 0) \<in> set (cells_zyx nan_dem) \<and> residualNorm nan_dem (1, 0, 0) = NaN
   \<and> cells_zyx nan_dem = [(0, 0, 0), (1, 0, 0)] \<and> residualNorm nan_dem (0, 0, 0) = Fin 0
   \<and> avgNormResDarcy (Fin 0) nan_dem = Inl (ResidualNaN 1 0 0 (Fin 6) (Some 3))
   \<and> maxNormResDarcy nan_dem = Inl (ResidualNaN 1 0 0 (Fin 6) (Some 3))"
proof -
  have c: "cells_zyx nan_dem = [(0, 0, 0), (1, 0, 0)]"
    by (simp add: cells_variants cells_example)
  note v = residualNorm_example(3,4)
  have h: "(1, 0, 0) \<in> set (cells_zyx nan_dem) \<and> residualNorm nan_dem (1, 0, 0) = NaN"
    by (simp add: c v del: One_nat_def)
  have u: "\<forall>b \<in> set (cells_zyx nan_dem). residualNorm nan_dem b = NaN \<longrightarrow> b = (1, 0, 0)"
    by (simp add: c v del: One_nat_def)
  from residual_NaN_fatal [of "(1, 0, 0)" nan_dem "Fin 0"] h
  obtain x y z where r: "avgNormResDarcy (Fin 0) nan_dem
           = Inl (ResidualNaN x y z (time_current nan_dem)
                   (int_of_double (ddiv (time_current nan_dem) (time_dt nan_dem))))"
    "maxNormResDarcy nan_dem
           = Inl (ResidualNaN x y z (time_current nan_dem)
                   (int_of_double (ddiv (time_current nan_dem) (time_dt nan_dem))))"
    "(\<forall>b \<in> set (cells_zyx nan_dem). residualNorm nan_dem b = NaN \<longrightarrow> b = (1, 0, 0))
       \<longrightarrow> (x, y, z) = (1, 0, 0)"
    by blast
  from r(3) u have "(x, y, z) = (1, 0, 0)" by blast
  then have e: "x = 1" "y = 0" "z = 0" by simp_all
  have "ResidualNaN 1 0 0 (time_current nan_dem)
          (int_of_double (ddiv (time_current nan_dem) (time_dt nan_dem)))
        = ResidualNaN 1 0 0 (Fin 6) (Some 3)"
    using report_example(1) by (simp only: residual_fatal_def prod.case)
  with r(1,2) have n: "avgNormResDarcy (Fin 0) nan_dem = Inl (ResidualNaN 1 0 0 (Fin 6) (Some 3))"
    "maxNormResDarcy nan_dem = Inl (ResidualNaN 1 0 0 (Fin 6) (Some 3))"
    unfolding e by (simp_all only:)
  with h c v show ?thesis by (simp del: One_nat_def)
qed

text \<open>
  C6: if one interior cell of the residual-norm field holds \<open>M > 0\<close> and every other
  interior cell holds \<open>0\<close>, then \<open>maxNormResDarcy\<close> returns \<open>M\<close>. The running maximum
  starts from \<open>-1.0e9\<close>: on a field without NaN the value returned is the start value or
  the residual of an interior cell, it is not below the start value, and no interior
  residual is greater than it. The interior cells are those with \<open>0 \<le> x < grid.num[0]\<close>,
  \<open>0 \<le> y < grid.num[1]\<close>, \<open>0 \<le> z < grid.num[2]\<close>.
\<close>

theorem maxNormResDarcy_single_cell:
  "(c0 \<in> set (cells_zyx s) \<and> dgt M (Fin 0)
      \<and> (\<forall>c \<in> set (cells_zyx s). residualNorm s c = (if c = c0 then M else Fin 0))
     \<longrightarrow> maxNormResDarcy s = Inr (M, s))
   \<and> ((\<forall>c \<in> set (cells_zyx s). residualNorm s c \<noteq> NaN) \<longrightarrow>
        (\<exists>r. maxNormResDarcy s = Inr (r, s)
           \<and> (r = Fin (- 1000000000) \<or> r \<in> residualNorm s ` set (cells_zyx s))
           \<and> \<not> dgt (Fin (- 1000000000)) r
           \<and> (\<forall>c \<in> set (cells_zyx s). \<not> dgt (residualNorm s c) r)))
   \<and> set (cells_zyx s)
        = {(x, y, z). x < unat (grid_num s 0) \<and> y < unat (grid_num s 1)
             \<and> z < unat (grid_num s 2)}"
proof (intro conjI impI)
  assume "c0 \<in> set (cells_zyx s) \<and> dgt M (Fin 0)
      \<and> (\<forall>c \<in> set (cells_zyx s). residualNorm s c = (if c = c0 then M else Fin 0))"
  then show "maxNormResDarcy s = Inr (M, s)"
    by (intro max_of_single_peak [of c0]) simp_all
next
  assume "\<forall>c \<in> set (cells_zyx s). residualNorm s c \<noteq> NaN"
  then show "\<exists>r. maxNormResDarcy s = Inr (r, s)
           \<and> (r = Fin (- 1000000000) \<or> r \<in> residualNorm s ` set (cells_zyx s))
           \<and> \<not> dgt (Fin (- 1000000000)) r
           \<and> (\<forall>c \<in> set (cells_zyx s). \<not> dgt (residualNorm s c) r)"
    by (rule maxNormResDarcy_is_max)
next
  show "set (cells_zyx s)
        = {(x, y, z). x < unat (grid_num s 0) \<and> y < unat (grid_num s 1)
             \<and> z < unat (grid_num s 2)}"
    by (rule set_cells_zyx)
qed

text \<open>
  C6, witness: the residual \<open>5\<close> in cell \<open>(1,0,0)\<close> and \<open>0\<close> in cell \<open>(0,0,0)\<close>:
  \<open>maxNormResDarcy\<close> returns \<open>5\<close>.
\<close>

theorem maxNormResDarcy_single_cell_witness:
  "(1, 0, 0) \<in> set (cells_zyx peak_dem) \<and> dgt (Fin 5) (Fin 0)
   \<and> cells_zyx peak_dem = [(0, 0, 0), (1, 0, 0)]
   \<and> residualNorm peak_dem (0, 0, 0) = Fin 0
   \<and> residualNorm peak_dem (1, 0, 0) = Fin 5
   \<and> maxNormResDarcy peak_dem = Inr (Fin 5, peak_dem)"
proof -
  have c: "cells_zyx peak_dem = [(0, 0, 0), (1, 0, 0)]"
    by (simp add: cells_variants cells_example)
  note v = residualNorm_example(5,6)
  have h: "(1, 0, 0) \<in> set (cells_zyx peak_dem) \<and> dgt (Fin 5) (Fin 0)
      \<and> (\<forall>c \<in> set (cells_zyx peak_dem).
            residualNorm peak_dem c = (if c = (1, 0, 0) then Fin 5 else Fin 0))"
    by (simp add: c v del: One_nat_def)
  then have n: "\<forall>c \<in> set (cells_zyx peak_dem). residualNorm peak_dem c \<noteq> NaN"
    by simp
  note T = maxNormResDarcy_single_cell [of "(1, 0, 0)" peak_dem "Fin 5"]
  from T h have m: "maxNormResDarcy peak_dem = Inr (Fin 5, peak_dem)" by blast
  from T n have "\<exists>r. maxNormResDarcy peak_dem = Inr (r, peak_dem)" by blast
  with h m c v show ?thesis by (simp del: One_nat_def)
qed

text \<open>
  C8: whenever \<open>avgNormResDarcy\<close> or \<open>maxNormResDarcy\<close> returns normally, the simulation
  object after the call is the one before it: every element of the residual-norm,
  pressure, velocity, porosity, porosity-rate and particle-force arrays is unchanged.
\<close>

theorem residual_statistics_read_only:
  "(avgNormResDarcy a s = Inr (r, s') \<longrightarrow> s' = s)
   \<and> (maxNormResDarcy s = Inr (r, s') \<longrightarrow> s' = s)"
  by (blast dest: avgNormResDarcy_frame maxNormResDarcy_frame)

text \<open>C8, witness: both functions return on the all-zero example field, with the object as it was.\<close>

theorem residual_statistics_read_only_witness:
  "(\<exists>r s'. avgNormResDarcy (Fin 0) example_dem = Inr (r, s') \<and> s' = example_dem)
   \<and> (\<exists>r s'. maxNormResDarcy example_dem = Inr (r, s') \<and> s' = example_dem)"
proof -
  have f: "find (\<lambda>c. residualNorm example_dem c = NaN) (cells_zyx example_dem) = None"
    by (simp add: cells_example residualNorm_example del: One_nat_def)
  obtain r s' where a: "avgNormResDarcy (Fin 0) example_dem = Inr (r, s')"
    by (simp add: avgNormResDarcy_find f)
  obtain r' s'' where m: "maxNormResDarcy example_dem = Inr (r', s'')"
    by (simp add: maxNormResDarcy_find f)
  from residual_statistics_read_only [of "Fin 0" example_dem r s'] a
  have "s' = example_dem" by blast
  moreover from residual_statistics_read_only [of _ example_dem r' s''] m
  have "s'' = example_dem" by blast
  ultimately show ?thesis using a m by blast
qed

subsection \<open>Outcomes that rounding decides\<close>

text \<open>
  The stability numbers are the computed ones. With viscosity \<open>1 + 2^-52\<close>, time step
  \<open>0.5 - 2^-54\<close> and \<open>dmin = 1\<close> the quotient exceeds \<open>0.5\<close> over the reals, the product
  rounds to \<open>0.5\<close>, and the check returns normally. With the velocity
  \<open>(1, 2^-53, 2^-53)\<close>, time step \<open>1\<close> and cell size \<open>1\<close> the sum exceeds \<open>1\<close> over the reals,
  each addition rounds back to \<open>1\<close>, and the check returns normally. With the velocity
  \<open>(9, 18, 1)\<close>, time step \<open>1\<close> and cell size \<open>28\<close> the sum is \<open>1\<close> over the reals, the
  rounded quotients add up to \<open>1 + 2^-52\<close>, and the run ends with the advection
  diagnostic.
\<close>

theorem checkDarcyStability_rounding:
  "(1 / 2 :: real) < (1 + 1 / 2 ^ 52) * (1 / 2 - 1 / 2 ^ 54) / (1 * 1)
   \<and> diffusion_number round_down_dem = Fin (1 / 2)
   \<and> checkDarcyStability round_down_dem = Inr round_down_dem
   \<and> (1 :: real) < 1 * 1 / 1 + 1 / 2 ^ 53 * 1 / 1 + 1 / 2 ^ 53 * 1 / 1
   \<and> courant tie_dem (velocity tie_dem (0, 0, 0)) = Fin 1
   \<and> courant tie_dem (velocity tie_dem (1, 0, 0)) = Fin 1
   \<and> checkDarcyStability tie_dem = Inr tie_dem
   \<and> (9 * 1 / 28 + 18 * 1 / 28 + 1 * 1 / 28 :: real) = 1
   \<and> courant round_up_dem (velocity round_up_dem (0, 0, 0)) = Fin (1 + 1 / 2 ^ 52)
   \<and> checkDarcyStability round_up_dem
        = Inl (AdvectionUnstable 0 0 0 \<lparr>fx = Fin 9, fy = Fin 18, fz = Fin 1\<rparr>)"
proof -
  have a: "checkDarcyStability round_down_dem = Inr round_down_dem"
    by (simp add: checkDarcyStability_find diffusion_number_example cells_variants
        cells_example offending_def courant_cells del: One_nat_def)
  have b: "checkDarcyStability tie_dem = Inr tie_dem"
    by (simp add: checkDarcyStability_find diffusion_number_example cells_variants
        cells_example offending_def courant_cells del: One_nat_def)
  have c: "checkDarcyStability round_up_dem
        = Inl (AdvectionUnstable 0 0 0 \<lparr>fx = Fin 9, fy = Fin 18, fz = Fin 1\<rparr>)"
    by (simp add: checkDarcyStability_find diffusion_number_example cells_variants
        cells_example offending_def advection_fatal_def velocity_example courant_example
        del: One_nat_def)
  from a b c show ?thesis
    by (simp add: diffusion_number_example courant_cells del: One_nat_def)
qed

text \<open>
  The iteration count of the residual diagnostic is the truncated computed quotient: at
  time \<open>1\<close> with the time step nearest to \<open>0.1\<close>, whose exact quotient lies below \<open>10\<close>, the
  division rounds to \<open>10\<close> and the diagnostic reports iteration \<open>10\<close>.
\<close>

theorem iteration_count_rounding:
  "1 / (3602879701896397 / 2 ^ 55) < (10 :: real)
   \<and> time_current tenth_dem = Fin 1 \<and> time_dt tenth_dem = Fin (3602879701896397 / 2 ^ 55)
   \<and> avgNormResDarcy (Fin 0) tenth_dem = Inl (ResidualNaN 1 0 0 (Fin 1) (Some 10))
   \<and> maxNormResDarcy tenth_dem = Inl (ResidualNaN 1 0 0 (Fin 1) (Some 10))"
proof -
  have c: "cells_zyx tenth_dem = [(0, 0, 0), (1, 0, 0)]"
    by (simp add: cells_variants cells_example)
  have f: "find (\<lambda>c. residualNorm tenth_dem c = NaN) (cells_zyx tenth_dem) = Some (1, 0, 0)"
    by (simp add: c residualNorm_example del: One_nat_def)
  have "avgNormResDarcy (Fin 0) tenth_dem = Inl (ResidualNaN 1 0 0 (Fin 1) (Some 10))"
    "maxNormResDarcy tenth_dem = Inl (ResidualNaN 1 0 0 (Fin 1) (Some 10))"
    by (simp_all add: avgNormResDarcy_find maxNormResDarcy_find f report_example
        del: One_nat_def)
  then show ?thesis by (simp add: tenth_dem_def nan_dem_def example_dem_def)
qed

subsection \<open>Offsets stay inside the allocated arrays\<close>

text \<open>
  After \<open>initDarcyMem\<close>, on a grid whose padded cell count fits 32 bits, the offset of
  every coordinate of the padded range lies inside each of the five per-cell arrays.
\<close>

theorem d_idx_in_bounds:
  assumes "no_overflow (initDarcyMem raw s)" and "c \<in> padded (initDarcyMem raw s)"
  shows "unat (d_idx3 (initDarcyMem raw s) c) < len (darcy_p (initDarcyMem raw s))
    \<and> unat (d_idx3 (initDarcyMem raw s) c) < len (darcy_v (initDarcyMem raw s))
    \<and> unat (d_idx3 (initDarcyMem raw s) c) < len (darcy_phi (initDarcyMem raw s))
    \<and> unat (d_idx3 (initDarcyMem raw s) c) < len (darcy_dphi (initDarcyMem raw s))
    \<and> unat (d_idx3 (initDarcyMem raw s) c) < len (darcy_norm (initDarcyMem raw s))"
proof -
  define s' where "s' = initDarcyMem raw s"
  have "uint (d_idx3 s' c) < uint (darcyCells s')"
    using offset_int_range(2) [of c s'] assms uint_d_idx3 [of s' c] uint_darcyCells [of s']
    by (simp add: s'_def)
  then have "d_idx3 s' c < darcyCells s'" by (simp add: word_less_def)
  then have "unat (d_idx3 s' c) < unat (darcyCells s')" by (simp add: word_less_nat_alt)
  moreover have "len (darcy_p s') = unat (darcyCells s')"
    "len (darcy_v s') = unat (darcyCells s')" "len (darcy_phi s') = unat (darcyCells s')"
    "len (darcy_dphi s') = unat (darcyCells s')" "len (darcy_norm s') = unat (darcyCells s')"
    by (simp_all add: s'_def initDarcyMem_def darcyCells_def new_array_def Let_def)
  ultimately show ?thesis by (simp add: s'_def)
qed

text \<open>Witness: the example grid after allocation, at the ghost corner \<open>(2, 1, 1)\<close>, offset 35 of 36.\<close>

theorem d_idx_in_bounds_witness:
  "no_overflow (initDarcyMem zero_mem example_dem)
   \<and> (2, 1, 1) \<in> padded (initDarcyMem zero_mem example_dem)
   \<and> unat (d_idx3 (initDarcyMem zero_mem example_dem) (2, 1, 1))
        < len (darcy_norm (initDarcyMem zero_mem example_dem))"
proof -
  have h: "no_overflow (initDarcyMem zero_mem example_dem)"
    by (simp add: no_overflow_def initDarcyMem_def Let_def example_dem_def)
  have p: "(2, 1, 1) \<in> padded (initDarcyMem zero_mem example_dem)"
    by (simp add: padded_def initDarcyMem_def Let_def example_dem_def)
  from d_idx_in_bounds [OF h p] h p show ?thesis by simp
qed

end
